theory Spec2Isabelle
  imports
    Complex_Main
    "HOL-Library.Word"
    "HOL-Library.Char_ord"
    "HOL-Library.List_Lexorder"
    "HOL-Library.Sublist"
    "HOL-Library.Multiset"
begin

section \<open>The program\<close>

text \<open>
  The development follows \<^verbatim>\<open>go-baderdb-multi-table-ex/main.go\<close>: the identifier
  allocator (\<^verbatim>\<open>initCounters\<close>, \<^verbatim>\<open>getNextID\<close>), the generic record store
  (\<^verbatim>\<open>create\<close>, \<^verbatim>\<open>get\<close>, \<^verbatim>\<open>list\<close>) and the five join and aggregation
  queries. Every operation takes the service state and returns the state it leaves.
\<close>

subsection \<open>Data model\<close>

text \<open>
  \<^verbatim>\<open>int64\<close> is a 64-bit word read as a signed number (\<open>sint\<close>); addition wraps as
  it does in Go. Stored values and keys are byte strings. \<^verbatim>\<open>time.Time\<close> is kept as
  an instant number; no operation below inspects it. The type \<^verbatim>\<open>float64\<close> is the
  type parameter \<open>'f\<close>: the code only uses its zero, its addition and its comparison.
  The theorems on sums hold for whatever zero and addition are; the theorem on the
  ranking takes the comparison to be a linear order (a JSON document holds no NaN). Go's
  \<^verbatim>\<open>int\<close> holds lengths and counts of slices in memory and is modelled by \<open>int\<close>.
\<close>

type_synonym int64 = "64 word"
type_synonym bytes = string
type_synonym Time = int

record User =
  ID :: int64
  Name :: string
  Email :: string
  CompanyID :: int64
  CreatedAt :: Time

record Company =
  ID :: int64
  Name :: string
  Industry :: string
  CreatedAt :: Time

record 'f Order =
  ID :: int64
  UserID :: int64
  ProductID :: int64
  Quantity :: int
  Amount :: 'f
  Status :: string
  CreatedAt :: Time

record 'f Product =
  ID :: int64
  Name :: string
  Price :: 'f
  CategoryID :: int64
  CompanyID :: int64
  Description :: string

record Category =
  ID :: int64
  Name :: string

record UserWithCompany =
  User :: User
  Company :: Company

record 'f OrderWithDetails =
  Order :: "'f Order"
  User :: User
  Product :: "'f Product"
  Category :: Category

record 'f CompanyStats =
  Company :: Company
  UserCount :: int
  OrderCount :: int
  TotalRevenue :: 'f

text \<open>The anonymous struct of \<^verbatim>\<open>GetTopSellingProductsByCategory\<close>.\<close>

record 'f ProductStats =
  Product :: "'f Product"
  TotalOrders :: int
  TotalRevenue :: 'f

subsection \<open>Errors\<close>

text \<open>
  \<open>ErrKeyNotFound\<close> and \<open>ErrReadOnlyTxn\<close> are the store's errors for a missing key and
  for a write in a read-only transaction; \<open>ErrJSON\<close> stands for any error of
  \<^verbatim>\<open>encoding/json\<close>; \<open>ErrStore\<close> for a failure of the store itself;
  \<open>Errorf msg e\<close> is \<^verbatim>\<open>fmt.Errorf(msg + ": %w", e)\<close>.
\<close>

datatype error =
    ErrKeyNotFound
  | ErrReadOnlyTxn
  | ErrJSON
  | ErrStore string
  | Errorf string error

subsection \<open>The key-value store\<close>

text \<open>
  The store is a library outside the repository. It is modelled by what the code relies on:
  keys are kept in ascending byte-wise order (\<open>kv\<close> is the sorted list of entries), a
  transaction works on a snapshot, \<^verbatim>\<open>View\<close> discards its transaction,
  \<^verbatim>\<open>Update\<close> commits it unless the function returned an error. \<open>fault\<close> is the
  environment: \<open>Some e\<close> when the store cannot run transactions (closed handle,
  failing disk) and answers each of them with \<open>e\<close>; \<open>None\<close> when it is healthy.
\<close>

record DB =
  kv :: "(string \<times> bytes) list"
  fault :: "error option"

record Txn =
  update :: bool
  pending :: "(string \<times> bytes) list"

definition NewTransaction :: "DB \<Rightarrow> bool \<Rightarrow> Txn" where
  "NewTransaction d upd = \<lparr>update = upd, pending = kv d\<rparr>"

fun kv_set :: "string \<Rightarrow> bytes \<Rightarrow> (string \<times> bytes) list \<Rightarrow> (string \<times> bytes) list" where
  "kv_set k v [] = [(k, v)]"
| "kv_set k v ((k', v') # rest) =
     (if k < k' then (k, v) # (k', v') # rest
      else if k = k' then (k, v) # rest
      else (k', v') # kv_set k v rest)"

definition txn_Get :: "Txn \<Rightarrow> string \<Rightarrow> error + bytes" where
  "txn_Get t k = (case map_of (pending t) k of None \<Rightarrow> Inl ErrKeyNotFound | Some v \<Rightarrow> Inr v)"

definition txn_Set :: "Txn \<Rightarrow> string \<Rightarrow> bytes \<Rightarrow> error option \<times> Txn" where
  "txn_Set t k v =
     (if update t then (None, t\<lparr>pending := kv_set k v (pending t)\<rparr>)
      else (Some ErrReadOnlyTxn, t))"

definition txn_Delete :: "Txn \<Rightarrow> string \<Rightarrow> error option \<times> Txn" where
  "txn_Delete t k =
     (if update t then (None, t\<lparr>pending := filter (\<lambda>entry. fst entry \<noteq> k) (pending t)\<rparr>)
      else (Some ErrReadOnlyTxn, t))"

text \<open>\<^verbatim>\<open>it.Seek(prefix)\<close>: the iterator stands at the first key not below the prefix.\<close>

definition it_Seek :: "string \<Rightarrow> Txn \<Rightarrow> (string \<times> bytes) list" where
  "it_Seek pfx t = dropWhile (\<lambda>(k, v). k < pfx) (pending t)"

definition db_View :: "(Txn \<Rightarrow> (error + 'a) \<times> Txn) \<Rightarrow> DB \<Rightarrow> (error + 'a) \<times> DB" where
  "db_View fn d =
     (case fault d of
        Some e \<Rightarrow> (Inl e, d)
      | None \<Rightarrow> (fst (fn (NewTransaction d False)), d))"

definition db_Update :: "(Txn \<Rightarrow> error option \<times> Txn) \<Rightarrow> DB \<Rightarrow> error option \<times> DB" where
  "db_Update fn d =
     (case fault d of
        Some e \<Rightarrow> (Some e, d)
      | None \<Rightarrow>
          (case fn (NewTransaction d True) of
             (Some e, t) \<Rightarrow> (Some e, d)
           | (None, t) \<Rightarrow> (None, d\<lparr>kv := pending t\<rparr>)))"

subsection \<open>Formatting and encoding\<close>

text \<open>\<^verbatim>\<open>%d\<close> of \<^verbatim>\<open>fmt.Sprintf\<close>: decimal digits, a minus sign for a negative number.\<close>

fun dec :: "nat \<Rightarrow> string" where
  "dec n = (if n < 10 then [''0123456789'' ! n]
            else dec (n div 10) @ [''0123456789'' ! (n mod 10)])"

declare dec.simps [simp del]

definition fmt_d :: "int64 \<Rightarrow> string" where
  "fmt_d i = (if sint i < 0 then ''-'' @ dec (nat (- sint i)) else dec (nat (sint i)))"

definition counter_key :: "string \<Rightarrow> string" where
  "counter_key entity = ''counter:'' @ entity"

definition entity_key :: "string \<Rightarrow> int64 \<Rightarrow> string" where
  "entity_key entity i = entity @ '':'' @ fmt_d i"

definition entity_prefix :: "string \<Rightarrow> string" where
  "entity_prefix entity = entity @ '':''"

text \<open>
  \<^verbatim>\<open>json.Marshal\<close> of an \<^verbatim>\<open>int64\<close> is its decimal text and cannot fail. The other
  uses of \<^verbatim>\<open>encoding/json\<close> are parameters: \<open>Unmarshal_T\<close> is
  \<^verbatim>\<open>json.Unmarshal\<close> into a fresh value of type \<open>T\<close>, \<open>None\<close> when it returns an
  error.
\<close>

definition Marshal_int64 :: "int64 \<Rightarrow> bytes" where
  "Marshal_int64 n = fmt_d n"

record 'f json =
  Unmarshal_int64 :: "bytes \<Rightarrow> int64 option"
  Unmarshal_User :: "bytes \<Rightarrow> User option"
  Unmarshal_Company :: "bytes \<Rightarrow> Company option"
  Unmarshal_Order :: "bytes \<Rightarrow> 'f Order option"
  Unmarshal_Product :: "bytes \<Rightarrow> 'f Product option"
  Unmarshal_Category :: "bytes \<Rightarrow> Category option"

subsection \<open>The service and its identifier allocator\<close>

text \<open>
  \<open>counters\<close> is the Go map \<^verbatim>\<open>map[string]int64\<close>; reading a missing key gives 0
  (\<open>counter_at\<close>). The mutex is not modelled: calls are sequential.
\<close>

record BadgerService =
  db :: DB
  counters :: "string \<rightharpoonup> int64"

definition counter_at :: "(string \<rightharpoonup> int64) \<Rightarrow> string \<Rightarrow> int64" where
  "counter_at m entity = (case m entity of None \<Rightarrow> 0 | Some n \<Rightarrow> n)"

definition entities :: "string list" where
  "entities = [''users'', ''companies'', ''orders'', ''products'', ''categories'']"

fun initCounters_loop :: "'f json \<Rightarrow> string list \<Rightarrow> BadgerService \<Rightarrow> BadgerService" where
  "initCounters_loop js [] s = s"
| "initCounters_loop js (entity # rest) s =
     (case db_View
             (\<lambda>t. case txn_Get t (counter_key entity) of
                     Inl err \<Rightarrow> (Inr 0, t)
                   | Inr val \<Rightarrow>
                       (Inr (case Unmarshal_int64 js val of None \<Rightarrow> 0 | Some n \<Rightarrow> n), t))
             (db s) of
        (Inl err, d) \<Rightarrow> initCounters_loop js rest (s\<lparr>db := d\<rparr>)
      | (Inr n, d) \<Rightarrow>
          initCounters_loop js rest (s\<lparr>db := d, counters := (counters s)(entity \<mapsto> n)\<rparr>))"

definition initCounters :: "'f json \<Rightarrow> BadgerService \<Rightarrow> BadgerService" where
  "initCounters js s = initCounters_loop js entities s"

text \<open>The argument is what \<^verbatim>\<open>badger.Open\<close> returned.\<close>

definition NewBadgerService :: "'f json \<Rightarrow> error + DB \<Rightarrow> error + BadgerService" where
  "NewBadgerService js opened =
     (case opened of
        Inl err \<Rightarrow> Inl (Errorf ''failed to open BadgerDB'' err)
      | Inr d \<Rightarrow> Inr (initCounters js \<lparr>db = d, counters = Map.empty\<rparr>))"

text \<open>
  \<open>persist_counter\<close> is the \<^verbatim>\<open>s.db.Update(...)\<close> call inside \<^verbatim>\<open>getNextID\<close>;
  \<^verbatim>\<open>getNextID\<close> drops the error it returns.
\<close>

definition persist_counter :: "string \<Rightarrow> BadgerService \<Rightarrow> error option \<times> DB" where
  "persist_counter entity s =
     db_Update
       (\<lambda>t. txn_Set t (counter_key entity) (Marshal_int64 (counter_at (counters s) entity)))
       (db s)"

definition getNextID :: "string \<Rightarrow> BadgerService \<Rightarrow> int64 \<times> BadgerService" where
  "getNextID entity s =
     (let s1 = s\<lparr>counters := (counters s)(entity \<mapsto> counter_at (counters s) entity + 1)\<rparr>;
          (err, d) = persist_counter entity s1;
          s2 = s1\<lparr>db := d\<rparr>
      in (counter_at (counters s2) entity, s2))"

subsection \<open>The generic record store\<close>

definition create :: "('a \<Rightarrow> bytes option) \<Rightarrow> string \<Rightarrow> int64 \<Rightarrow> 'a \<Rightarrow> BadgerService
    \<Rightarrow> error option \<times> BadgerService" where
  "create marshal entity i data s =
     (let (err, d) =
            db_Update
              (\<lambda>t. case marshal data of
                      None \<Rightarrow> (Some ErrJSON, t)
                    | Some jsonData \<Rightarrow> txn_Set t (entity_key entity i) jsonData)
              (db s)
      in (err, s\<lparr>db := d\<rparr>))"

definition get :: "(bytes \<Rightarrow> 'a option) \<Rightarrow> string \<Rightarrow> int64 \<Rightarrow> BadgerService
    \<Rightarrow> (error + 'a) \<times> BadgerService" where
  "get unmarshal entity i s =
     (let (r, d) =
            db_View
              (\<lambda>t. case txn_Get t (entity_key entity i) of
                      Inl err \<Rightarrow> (Inl err, t)
                    | Inr val \<Rightarrow>
                        (case unmarshal val of None \<Rightarrow> (Inl ErrJSON, t) | Some x \<Rightarrow> (Inr x, t)))
              (db s)
      in (r, s\<lparr>db := d\<rparr>))"

text \<open>
  The loop of \<^verbatim>\<open>list\<close>: while the iterator's key has the prefix, append the value
  and step. The collected raw messages are then marshalled as one JSON array and
  unmarshalled into the result slice, which decodes the elements one by one and fails
  when one of them fails.
\<close>

fun list_loop :: "string \<Rightarrow> (string \<times> bytes) list \<Rightarrow> bytes list \<Rightarrow> bytes list" where
  "list_loop pfx [] items = items"
| "list_loop pfx ((k, val) # it) items =
     (if prefix pfx k then list_loop pfx it (items @ [val]) else items)"

definition list :: "(bytes \<Rightarrow> 'a option) \<Rightarrow> string \<Rightarrow> BadgerService
    \<Rightarrow> (error + 'a list) \<times> BadgerService" where
  "list unmarshal entity s =
     (let (r, d) =
            db_View
              (\<lambda>t. let pfx = entity_prefix entity;
                        items = list_loop pfx (it_Seek pfx t) []
                    in case those (map unmarshal items) of
                         None \<Rightarrow> (Inl ErrJSON, t)
                       | Some xs \<Rightarrow> (Inr xs, t))
              (db s)
      in (r, s\<lparr>db := d\<rparr>))"

subsection \<open>Sequences of operations on the service\<close>

text \<open>
  The service has no method that deletes a record. \<open>delete\<close> is what the single-table
  program of the repository does in \<^verbatim>\<open>DeleteUser\<close>: an update transaction that
  deletes the key of the record.
\<close>

definition delete :: "string \<Rightarrow> int64 \<Rightarrow> BadgerService \<Rightarrow> error option \<times> BadgerService" where
  "delete entity i s =
     (let (err, d) = db_Update (\<lambda>t. txn_Delete t (entity_key entity i)) (db s)
      in (err, s\<lparr>db := d\<rparr>))"

text \<open>
  What may happen between two allocations: an allocation for any entity kind, a
  \<^verbatim>\<open>create\<close> of a value whose \<^verbatim>\<open>json.Marshal\<close> result is the given document
  (\<open>None\<close> when marshalling fails), the deletion of a record, and any other change of the
  store contents. \<open>run\<close> performs the steps in order and returns the identifiers that the
  allocations returned, each with its entity kind.
\<close>

datatype step =
    Allocate string
  | Create string int64 "bytes option"
  | Delete string int64
  | Edit "DB \<Rightarrow> DB"

fun run_step :: "step \<Rightarrow> BadgerService \<Rightarrow> (string \<times> int64) list \<times> BadgerService" where
  "run_step (Allocate entity) s = (let (i, s1) = getNextID entity s in ([(entity, i)], s1))"
| "run_step (Create entity i doc) s = ([], snd (create (\<lambda>d. d) entity i doc s))"
| "run_step (Delete entity i) s = ([], snd (delete entity i s))"
| "run_step (Edit f) s = ([], s\<lparr>db := f (db s)\<rparr>)"

fun run :: "step list \<Rightarrow> BadgerService \<Rightarrow> (string \<times> int64) list \<times> BadgerService" where
  "run [] s = ([], s)"
| "run (st # rest) s =
     (let (ids, s1) = run_step st s;
          (ids', s2) = run rest s1
      in (ids @ ids', s2))"

subsection \<open>Join 1: users with their companies\<close>

fun GetUsersWithCompanies_loop :: "'f json \<Rightarrow> User list \<Rightarrow> UserWithCompany list \<Rightarrow> BadgerService
    \<Rightarrow> UserWithCompany list \<times> BadgerService" where
  "GetUsersWithCompanies_loop js [] results s = (results, s)"
| "GetUsersWithCompanies_loop js (user # rest) results s =
     (case get (Unmarshal_Company js) ''companies'' (User.CompanyID user) s of
        (Inl err, s1) \<Rightarrow> GetUsersWithCompanies_loop js rest results s1
      | (Inr company, s1) \<Rightarrow>
          GetUsersWithCompanies_loop js rest
            (results @ [\<lparr>UserWithCompany.User = user, Company = company\<rparr>]) s1)"

definition GetUsersWithCompanies :: "'f json \<Rightarrow> BadgerService
    \<Rightarrow> (error + UserWithCompany list) \<times> BadgerService" where
  "GetUsersWithCompanies js s =
     (case list (Unmarshal_User js) ''users'' s of
        (Inl err, s1) \<Rightarrow> (Inl err, s1)
      | (Inr users, s1) \<Rightarrow>
          (let (results, s2) = GetUsersWithCompanies_loop js users [] s1
           in (Inr results, s2)))"

subsection \<open>Join 2: orders with user, product and category\<close>

fun GetOrdersWithDetails_loop :: "'f json \<Rightarrow> 'f Order list \<Rightarrow> 'f OrderWithDetails list
    \<Rightarrow> BadgerService \<Rightarrow> 'f OrderWithDetails list \<times> BadgerService" where
  "GetOrdersWithDetails_loop js [] results s = (results, s)"
| "GetOrdersWithDetails_loop js (order # rest) results s =
     (case get (Unmarshal_User js) ''users'' (Order.UserID order) s of
        (Inl err, s1) \<Rightarrow> GetOrdersWithDetails_loop js rest results s1
      | (Inr user, s1) \<Rightarrow>
          (case get (Unmarshal_Product js) ''products'' (Order.ProductID order) s1 of
             (Inl err, s2) \<Rightarrow> GetOrdersWithDetails_loop js rest results s2
           | (Inr product, s2) \<Rightarrow>
               (case get (Unmarshal_Category js) ''categories'' (Product.CategoryID product) s2 of
                  (Inl err, s3) \<Rightarrow> GetOrdersWithDetails_loop js rest results s3
                | (Inr category, s3) \<Rightarrow>
                    GetOrdersWithDetails_loop js rest
                      (results @ [\<lparr>Order = order, User = user, Product = product,
                                   Category = category\<rparr>]) s3)))"

definition GetOrdersWithDetails :: "'f json \<Rightarrow> BadgerService
    \<Rightarrow> (error + 'f OrderWithDetails list) \<times> BadgerService" where
  "GetOrdersWithDetails js s =
     (case list (Unmarshal_Order js) ''orders'' s of
        (Inl err, s1) \<Rightarrow> (Inl err, s1)
      | (Inr orders, s1) \<Rightarrow>
          (let (results, s2) = GetOrdersWithDetails_loop js orders [] s1
           in (Inr results, s2)))"

subsection \<open>Aggregation 3: company statistics\<close>

text \<open>
  A Go map from a key to a slice: indexing a missing key gives the nil slice, which
  \<^verbatim>\<open>append\<close> and \<^verbatim>\<open>len\<close> treat as empty.
\<close>

definition slice_at :: "('k \<rightharpoonup> 'v list) \<Rightarrow> 'k \<Rightarrow> 'v list" where
  "slice_at m k = (case m k of None \<Rightarrow> [] | Some xs \<Rightarrow> xs)"

fun usersByCompany_loop :: "User list \<Rightarrow> (int64 \<rightharpoonup> User list) \<Rightarrow> (int64 \<rightharpoonup> User list)" where
  "usersByCompany_loop [] m = m"
| "usersByCompany_loop (user # rest) m =
     usersByCompany_loop rest
       (m(User.CompanyID user \<mapsto> slice_at m (User.CompanyID user) @ [user]))"

text \<open>The inner loop over the users: the first user with the order's user id, then \<^verbatim>\<open>break\<close>.\<close>

fun attribute_order :: "'f Order \<Rightarrow> User list \<Rightarrow> (int64 \<rightharpoonup> 'f Order list)
    \<Rightarrow> (int64 \<rightharpoonup> 'f Order list)" where
  "attribute_order order [] m = m"
| "attribute_order order (user # rest) m =
     (if User.ID user = Order.UserID order
      then m(User.CompanyID user \<mapsto> slice_at m (User.CompanyID user) @ [order])
      else attribute_order order rest m)"

fun ordersByCompany_loop :: "'f Order list \<Rightarrow> User list \<Rightarrow> (int64 \<rightharpoonup> 'f Order list)
    \<Rightarrow> (int64 \<rightharpoonup> 'f Order list)" where
  "ordersByCompany_loop [] users m = m"
| "ordersByCompany_loop (order # rest) users m =
     ordersByCompany_loop rest users (attribute_order order users m)"

fun revenue_loop :: "'f Order list \<Rightarrow> 'f \<Rightarrow> ('f::plus)" where
  "revenue_loop [] revenue = revenue"
| "revenue_loop (order # rest) revenue = revenue_loop rest (revenue + Order.Amount order)"

fun CompanyStats_loop :: "Company list \<Rightarrow> (int64 \<rightharpoonup> User list) \<Rightarrow> (int64 \<rightharpoonup> 'f Order list)
    \<Rightarrow> 'f CompanyStats list \<Rightarrow> ('f::{zero,plus}) CompanyStats list" where
  "CompanyStats_loop [] usersByCompany ordersByCompany results = results"
| "CompanyStats_loop (company # rest) usersByCompany ordersByCompany results =
     (let stats = \<lparr>Company = company,
                   UserCount = int (length (slice_at usersByCompany (Company.ID company))),
                   OrderCount = 0,
                   CompanyStats.TotalRevenue = 0\<rparr>;
          companyOrders = slice_at ordersByCompany (Company.ID company);
          stats = stats\<lparr>OrderCount := int (length companyOrders)\<rparr>;
          stats = stats\<lparr>CompanyStats.TotalRevenue :=
                    revenue_loop companyOrders (CompanyStats.TotalRevenue stats)\<rparr>
      in CompanyStats_loop rest usersByCompany ordersByCompany (results @ [stats]))"

definition GetCompanyStats :: "'f json \<Rightarrow> BadgerService
    \<Rightarrow> (error + ('f::{zero,plus}) CompanyStats list) \<times> BadgerService" where
  "GetCompanyStats js s =
     (case list (Unmarshal_Company js) ''companies'' s of
        (Inl err, s1) \<Rightarrow> (Inl err, s1)
      | (Inr companies, s1) \<Rightarrow>
          (case list (Unmarshal_User js) ''users'' s1 of
             (Inl err, s2) \<Rightarrow> (Inl err, s2)
           | (Inr users, s2) \<Rightarrow>
               (case list (Unmarshal_Order js) ''orders'' s2 of
                  (Inl err, s3) \<Rightarrow> (Inl err, s3)
                | (Inr orders, s3) \<Rightarrow>
                    (let usersByCompany = usersByCompany_loop users Map.empty;
                         ordersByCompany = ordersByCompany_loop orders users Map.empty
                     in (Inr (CompanyStats_loop companies usersByCompany ordersByCompany []),
                         s3)))))"

subsection \<open>Join 4: the orders of one user\<close>

fun GetUserOrdersWithProducts_loop :: "'f json \<Rightarrow> int64 \<Rightarrow> User \<Rightarrow> 'f Order list
    \<Rightarrow> 'f OrderWithDetails list \<Rightarrow> BadgerService
    \<Rightarrow> 'f OrderWithDetails list \<times> BadgerService" where
  "GetUserOrdersWithProducts_loop js userID user [] results s = (results, s)"
| "GetUserOrdersWithProducts_loop js userID user (order # rest) results s =
     (if Order.UserID order \<noteq> userID
      then GetUserOrdersWithProducts_loop js userID user rest results s
      else
        (case get (Unmarshal_Product js) ''products'' (Order.ProductID order) s of
           (Inl err, s1) \<Rightarrow> GetUserOrdersWithProducts_loop js userID user rest results s1
         | (Inr product, s1) \<Rightarrow>
             (case get (Unmarshal_Category js) ''categories'' (Product.CategoryID product) s1 of
                (Inl err, s2) \<Rightarrow> GetUserOrdersWithProducts_loop js userID user rest results s2
              | (Inr category, s2) \<Rightarrow>
                  GetUserOrdersWithProducts_loop js userID user rest
                    (results @ [\<lparr>Order = order, User = user, Product = product,
                                 Category = category\<rparr>]) s2)))"

definition GetUserOrdersWithProducts :: "'f json \<Rightarrow> int64 \<Rightarrow> BadgerService
    \<Rightarrow> (error + 'f OrderWithDetails list) \<times> BadgerService" where
  "GetUserOrdersWithProducts js userID s =
     (case list (Unmarshal_Order js) ''orders'' s of
        (Inl err, s1) \<Rightarrow> (Inl err, s1)
      | (Inr orders, s1) \<Rightarrow>
          (case get (Unmarshal_User js) ''users'' userID s1 of
             (Inl err, s2) \<Rightarrow> (Inl (Errorf ''user not found'' err), s2)
           | (Inr user, s2) \<Rightarrow>
               (let (results, s3) = GetUserOrdersWithProducts_loop js userID user orders [] s2
                in (Inr results, s3))))"

subsection \<open>Query 5: top selling products by category\<close>

fun productMap_loop :: "'f Product list \<Rightarrow> (int64 \<rightharpoonup> 'f Product) \<Rightarrow> (int64 \<rightharpoonup> 'f Product)" where
  "productMap_loop [] m = m"
| "productMap_loop (product # rest) m = productMap_loop rest (m(Product.ID product \<mapsto> product))"

fun categoryMap_loop :: "Category list \<Rightarrow> (int64 \<rightharpoonup> Category) \<Rightarrow> (int64 \<rightharpoonup> Category)" where
  "categoryMap_loop [] m = m"
| "categoryMap_loop (category # rest) m =
     categoryMap_loop rest (m(Category.ID category \<mapsto> category))"

text \<open>The zero values Go gives for a key that a map does not hold.\<close>

definition zero_Product :: "('f::zero) Product" where
  "zero_Product = \<lparr>Product.ID = 0, Name = [], Price = 0, CategoryID = 0, CompanyID = 0,
                    Description = []\<rparr>"

definition zero_Category :: Category where
  "zero_Category = \<lparr>Category.ID = 0, Name = []\<rparr>"

definition zero_ProductStats :: "('f::zero) ProductStats" where
  "zero_ProductStats = \<lparr>Product = zero_Product, TotalOrders = 0, TotalRevenue = 0\<rparr>"

text \<open>
  \<^verbatim>\<open>productStats\<close> is a Go map that the code later ranges over, so its entries are
  kept in a list with one entry per key; \<open>stats_put\<close> is the assignment
  \<^verbatim>\<open>productStats[k] = v\<close>. The order in which \<^verbatim>\<open>range\<close> visits a map is chosen by the
  runtime: it is the parameter \<open>range_order\<close> of the query.
\<close>

fun stats_put :: "int64 \<Rightarrow> 'v \<Rightarrow> (int64 \<times> 'v) list \<Rightarrow> (int64 \<times> 'v) list" where
  "stats_put k v [] = [(k, v)]"
| "stats_put k v ((k', v') # rest) =
     (if k = k' then (k, v) # rest else (k', v') # stats_put k v rest)"

fun productStats_loop :: "'f Order list \<Rightarrow> (int64 \<rightharpoonup> 'f Product)
    \<Rightarrow> (int64 \<times> 'f ProductStats) list \<Rightarrow> (int64 \<times> ('f::{zero,plus}) ProductStats) list" where
  "productStats_loop [] productMap productStats = productStats"
| "productStats_loop (order # rest) productMap productStats =
     (case productMap (Order.ProductID order) of
        None \<Rightarrow> productStats_loop rest productMap productStats
      | Some product \<Rightarrow>
          (let stats = (case map_of productStats (Product.ID product) of
                          None \<Rightarrow> zero_ProductStats
                        | Some st \<Rightarrow> st);
               stats = stats\<lparr>Product := product\<rparr>;
               stats = stats\<lparr>TotalOrders := TotalOrders stats + 1\<rparr>;
               stats = stats\<lparr>ProductStats.TotalRevenue :=
                         ProductStats.TotalRevenue stats + Order.Amount order\<rparr>
           in productStats_loop rest productMap
                (stats_put (Product.ID product) stats productStats)))"

fun group_loop :: "(int64 \<times> 'f ProductStats) list \<Rightarrow> (int64 \<rightharpoonup> Category)
    \<Rightarrow> (string \<rightharpoonup> 'f ProductStats list) \<Rightarrow> (string \<rightharpoonup> 'f ProductStats list)" where
  "group_loop [] categoryMap result = result"
| "group_loop ((k, stats) # rest) categoryMap result =
     (let category = (case categoryMap (Product.CategoryID (Product stats)) of
                        None \<Rightarrow> zero_Category
                      | Some c \<Rightarrow> c);
          categoryName = Category.Name category
      in group_loop rest categoryMap
           (result(categoryName \<mapsto> slice_at result categoryName @
              [\<lparr>Product = Product stats, TotalOrders = TotalOrders stats,
                TotalRevenue = ProductStats.TotalRevenue stats\<rparr>])))"

text \<open>
  \<^verbatim>\<open>sort.Slice\<close> is not stable and leaves the order of equal elements open. The model
  is one sorting function (insertion); the theorems use only that its result is a
  permutation of its argument that is sorted for the comparison \<open>lt\<close>.
\<close>

fun insert_by :: "('a \<Rightarrow> 'a \<Rightarrow> bool) \<Rightarrow> 'a \<Rightarrow> 'a list \<Rightarrow> 'a list" where
  "insert_by lt x [] = [x]"
| "insert_by lt x (y # ys) = (if lt y x then y # insert_by lt x ys else x # y # ys)"

definition sort_Slice :: "('a \<Rightarrow> 'a \<Rightarrow> bool) \<Rightarrow> 'a list \<Rightarrow> 'a list" where
  "sort_Slice lt xs = foldr (insert_by lt) xs []"

text \<open>The last loop sorts the slice of every key of \<^verbatim>\<open>result\<close> in place.\<close>

definition sort_groups :: "(string \<rightharpoonup> ('f::ord) ProductStats list)
    \<Rightarrow> (string \<rightharpoonup> 'f ProductStats list)" where
  "sort_groups result =
     (\<lambda>categoryName.
        map_option
          (sort_Slice (\<lambda>a b. ProductStats.TotalRevenue a > ProductStats.TotalRevenue b))
          (result categoryName))"

text \<open>What the query computes from the three listings.\<close>

definition top_selling :: "((int64 \<times> 'f ProductStats) list \<Rightarrow> (int64 \<times> 'f ProductStats) list)
    \<Rightarrow> 'f Order list \<Rightarrow> 'f Product list \<Rightarrow> Category list
    \<Rightarrow> (string \<rightharpoonup> ('f::{zero,plus,ord}) ProductStats list)" where
  "top_selling range_order orders products categories =
     (let productMap = productMap_loop products Map.empty;
          categoryMap = categoryMap_loop categories Map.empty;
          productStats = productStats_loop orders productMap [];
          result = group_loop (range_order productStats) categoryMap Map.empty
      in sort_groups result)"

definition GetTopSellingProductsByCategory ::
    "((int64 \<times> 'f ProductStats) list \<Rightarrow> (int64 \<times> 'f ProductStats) list)
    \<Rightarrow> 'f json \<Rightarrow> BadgerService
    \<Rightarrow> (error + (string \<rightharpoonup> ('f::{zero,plus,ord}) ProductStats list)) \<times> BadgerService" where
  "GetTopSellingProductsByCategory range_order js s =
     (case list (Unmarshal_Order js) ''orders'' s of
        (Inl err, s1) \<Rightarrow> (Inl err, s1)
      | (Inr orders, s1) \<Rightarrow>
          (case list (Unmarshal_Product js) ''products'' s1 of
             (Inl err, s2) \<Rightarrow> (Inl err, s2)
           | (Inr products, s2) \<Rightarrow>
               (case list (Unmarshal_Category js) ''categories'' s2 of
                  (Inl err, s3) \<Rightarrow> (Inl err, s3)
                | (Inr categories, s3) \<Rightarrow>
                    (Inr (top_selling range_order orders products categories), s3))))"

section \<open>Notions used in the statements\<close>

subsection \<open>Scans, key order and counter keys\<close>

text \<open>The raw messages that the loop of \<^verbatim>\<open>list\<close> collects from the entries of a store.\<close>

definition scan :: "string \<Rightarrow> (string \<times> bytes) list \<Rightarrow> bytes list" where
  "scan pfx kvs = list_loop pfx (dropWhile (\<lambda>(k, v). k < pfx) kvs) []"

text \<open>
  The store invariant: the entries are in strictly ascending byte-wise key order. It holds
  for the empty store and \<open>kv_set\<close> keeps it. \<open>has_prefix\<close> is
  \<^verbatim>\<open>it.ValidForPrefix\<close> on an entry.
\<close>

definition kv_ok :: "(string \<times> bytes) list \<Rightarrow> bool" where
  "kv_ok kvs \<longleftrightarrow> sorted_wrt (<) (map fst kvs)"




subsection \<open>The allocator\<close>

text \<open>The in-memory half of \<^verbatim>\<open>getNextID\<close>: \<^verbatim>\<open>s.counters[entity]++\<close>.\<close>

definition inc_counter :: "string \<Rightarrow> BadgerService \<Rightarrow> BadgerService" where
  "inc_counter entity s =
     s\<lparr>counters := (counters s)(entity \<mapsto> counter_at (counters s) entity + 1)\<rparr>"

text \<open>
  The steps that allocate for an entity kind, and the identifiers that a run has allocated
  for it, in the order of the calls.
\<close>

fun is_allocation :: "string \<Rightarrow> step \<Rightarrow> bool" where
  "is_allocation entity (Allocate entity') = (entity' = entity)"
| "is_allocation entity (Create entity' i doc) = False"
| "is_allocation entity (Delete entity' i) = False"
| "is_allocation entity (Edit f) = False"

definition allocated :: "string \<Rightarrow> (string \<times> int64) list \<Rightarrow> int64 list" where
  "allocated entity ids = map snd (filter (\<lambda>p. fst p = entity) ids)"

subsection \<open>The rows of the joins\<close>

text \<open>
  The row of a user in join 1: the user paired with the company that looking up its
  \<^verbatim>\<open>CompanyID\<close> returns, no row when the lookup fails.
\<close>

definition company_row :: "'f json \<Rightarrow> BadgerService \<Rightarrow> User \<Rightarrow> UserWithCompany option" where
  "company_row js s user =
     (case fst (get (Unmarshal_Company js) ''companies'' (User.CompanyID user) s) of
        Inl err \<Rightarrow> None
      | Inr company \<Rightarrow> Some \<lparr>UserWithCompany.User = user, Company = company\<rparr>)"

text \<open>
  The row of an order in join 4, for the user already resolved: no row when the product or
  its category cannot be looked up.
\<close>

definition details_row :: "'f json \<Rightarrow> BadgerService \<Rightarrow> User \<Rightarrow> 'f Order
    \<Rightarrow> 'f OrderWithDetails option" where
  "details_row js s user order =
     (case fst (get (Unmarshal_Product js) ''products'' (Order.ProductID order) s) of
        Inl err \<Rightarrow> None
      | Inr product \<Rightarrow>
          (case fst (get (Unmarshal_Category js) ''categories'' (Product.CategoryID product) s) of
             Inl err \<Rightarrow> None
           | Inr category \<Rightarrow>
               Some \<lparr>Order = order, User = user, Product = product, Category = category\<rparr>))"

subsection \<open>The statistics of a company\<close>

text \<open>
  The users of a company are the listed users whose \<^verbatim>\<open>CompanyID\<close> is the
  company's. An order is attributed to the company of the first listed user that has
  the order's \<^verbatim>\<open>UserID\<close>. The revenue is the amounts of the company's orders added
  up from zero in listing order.
\<close>

definition company_users :: "User list \<Rightarrow> Company \<Rightarrow> User list" where
  "company_users users company =
     filter (\<lambda>user. User.CompanyID user = Company.ID company) users"

definition order_company :: "User list \<Rightarrow> 'f Order \<Rightarrow> int64 option" where
  "order_company users order =
     map_option User.CompanyID (find (\<lambda>user. User.ID user = Order.UserID order) users)"

definition company_orders :: "User list \<Rightarrow> 'f Order list \<Rightarrow> Company \<Rightarrow> 'f Order list" where
  "company_orders users orders company =
     filter (\<lambda>order. order_company users order = Some (Company.ID company)) orders"

definition company_stats :: "User list \<Rightarrow> 'f Order list \<Rightarrow> Company
    \<Rightarrow> ('f::{zero,plus}) CompanyStats" where
  "company_stats users orders company =
     \<lparr>Company = company,
      UserCount = int (length (company_users users company)),
      OrderCount = int (length (company_orders users orders company)),
      CompanyStats.TotalRevenue =
        foldl (+) 0 (map Order.Amount (company_orders users orders company))\<rparr>"

subsection \<open>The entries and groups of query 5\<close>

text \<open>
  An order counts when a listed product has its \<^verbatim>\<open>ProductID\<close>. The entry of a
  product holds the number of its orders and their amounts added up from zero in listing
  order; there is one entry for every product identifier that occurs in an order and
  belongs to a listed product (the last listed one when several share the identifier).
  The group of an entry is named by the category with the product's \<^verbatim>\<open>CategoryID\<close>
  (again the last listed one), and by the empty string when there is none.
\<close>

definition known_product :: "'f Product list \<Rightarrow> 'f Order \<Rightarrow> bool" where
  "known_product products order \<longleftrightarrow> Order.ProductID order \<in> Product.ID ` set products"

definition product_stats :: "'f Order list \<Rightarrow> 'f Product
    \<Rightarrow> ('f::{zero,plus}) ProductStats" where
  "product_stats orders product =
     (let productOrders = filter (\<lambda>order. Order.ProductID order = Product.ID product) orders
      in \<lparr>Product = product,
          TotalOrders = int (length productOrders),
          TotalRevenue = foldl (+) 0 (map Order.Amount productOrders)\<rparr>)"

definition product_entries :: "'f Order list \<Rightarrow> 'f Product list
    \<Rightarrow> ('f::{zero,plus}) ProductStats list" where
  "product_entries orders products =
     List.map_filter
       (\<lambda>k. map_option (product_stats orders)
              (find (\<lambda>product. Product.ID product = k) (rev products)))
       (remdups (map Order.ProductID orders))"

definition group_key :: "Category list \<Rightarrow> 'f ProductStats \<Rightarrow> string" where
  "group_key categories stats =
     (case find (\<lambda>category. Category.ID category = Product.CategoryID (Product stats))
             (rev categories) of
        None \<Rightarrow> []
      | Some category \<Rightarrow> Category.Name category)"

text \<open>The body of the loop over the orders, for one order of a product.\<close>

definition count_order :: "'f Product \<Rightarrow> 'f ProductStats \<Rightarrow> 'f Order
    \<Rightarrow> ('f::plus) ProductStats" where
  "count_order product stats order =
     stats\<lparr>Product := product,
           TotalOrders := TotalOrders stats + 1,
           ProductStats.TotalRevenue := ProductStats.TotalRevenue stats + Order.Amount order\<rparr>"

section \<open>Example data\<close>

text \<open>
  Companies A and B, users u1 of A and u2 of B, orders o1 (u1, amount 10), o2 (u1, amount
  5) and o3 (u2, amount 7). Product p2 refers to a category that is not stored and order
  o3 to a product that is not stored. Company C has no users; user u3 refers to a company
  that is not stored; user u10 has a two-digit identifier.
\<close>

definition company_A :: Company where
  "company_A = \<lparr>Company.ID = 1, Name = ''A'', Industry = [], CreatedAt = 0\<rparr>"

definition company_B :: Company where
  "company_B = \<lparr>Company.ID = 2, Name = ''B'', Industry = [], CreatedAt = 0\<rparr>"

definition company_C :: Company where
  "company_C = \<lparr>Company.ID = 3, Name = ''C'', Industry = [], CreatedAt = 0\<rparr>"

definition user_u1 :: User where
  "user_u1 = \<lparr>User.ID = 1, Name = ''u1'', Email = [], CompanyID = 1, CreatedAt = 0\<rparr>"

definition user_u2 :: User where
  "user_u2 = \<lparr>User.ID = 2, Name = ''u2'', Email = [], CompanyID = 2, CreatedAt = 0\<rparr>"

definition user_u3 :: User where
  "user_u3 = \<lparr>User.ID = 3, Name = ''u3'', Email = [], CompanyID = 7, CreatedAt = 0\<rparr>"

definition user_u10 :: User where
  "user_u10 = \<lparr>User.ID = 10, Name = ''u10'', Email = [], CompanyID = 1, CreatedAt = 0\<rparr>"

definition order_o1 :: "real Order" where
  "order_o1 = \<lparr>Order.ID = 1, UserID = 1, ProductID = 1, Quantity = 1, Amount = 10,
               Status = [], CreatedAt = 0\<rparr>"

definition order_o2 :: "real Order" where
  "order_o2 = \<lparr>Order.ID = 2, UserID = 1, ProductID = 2, Quantity = 1, Amount = 5,
               Status = [], CreatedAt = 0\<rparr>"

definition order_o3 :: "real Order" where
  "order_o3 = \<lparr>Order.ID = 3, UserID = 2, ProductID = 3, Quantity = 1, Amount = 7,
               Status = [], CreatedAt = 0\<rparr>"

definition product_p1 :: "real Product" where
  "product_p1 = \<lparr>Product.ID = 1, Name = ''p1'', Price = 10, CategoryID = 1, CompanyID = 1,
                 Description = []\<rparr>"

definition product_p2 :: "real Product" where
  "product_p2 = \<lparr>Product.ID = 2, Name = ''p2'', Price = 5, CategoryID = 9, CompanyID = 2,
                 Description = []\<rparr>"

definition category_c1 :: Category where
  "category_c1 = \<lparr>Category.ID = 1, Name = ''Books''\<rparr>"

text \<open>
  The documents are named by short strings. \<open>example_json\<close> decodes exactly these
  names and fails on every other byte string; \<open>example_Marshal_User\<close> encodes a user
  as the document named like the user.
\<close>

definition example_json :: "real json" where
  "example_json =
     \<lparr>Unmarshal_int64 = map_of [(''1'', 1), (''2'', 2), (''3'', 3)],
      Unmarshal_User = map_of [(''u1'', user_u1), (''u2'', user_u2), (''u3'', user_u3),
                               (''u10'', user_u10)],
      Unmarshal_Company = map_of [(''A'', company_A), (''B'', company_B)],
      Unmarshal_Order = map_of [(''o1'', order_o1), (''o2'', order_o2), (''o3'', order_o3)],
      Unmarshal_Product = map_of [(''p1'', product_p1), (''p2'', product_p2)],
      Unmarshal_Category = map_of [(''c1'', category_c1)]\<rparr>"


text \<open>
  The store of the example, with the counters that creating its records has written.
\<close>

definition example_service :: BadgerService where
  "example_service =
     \<lparr>db = \<lparr>kv = [(''categories:1'', ''c1''),
                   (''companies:1'', ''A''), (''companies:2'', ''B''),
                   (''counter:categories'', ''1''), (''counter:companies'', ''2''),
                   (''counter:orders'', ''3''), (''counter:products'', ''2''),
                   (''counter:users'', ''2''),
                   (''orders:1'', ''o1''), (''orders:2'', ''o2''), (''orders:3'', ''o3''),
                   (''products:1'', ''p1''), (''products:2'', ''p2''),
                   (''users:1'', ''u1''), (''users:2'', ''u2'')],
             fault = None\<rparr>,
      counters = [''categories'' \<mapsto> 1, ''companies'' \<mapsto> 2, ''orders'' \<mapsto> 3,
                  ''products'' \<mapsto> 2, ''users'' \<mapsto> 2]\<rparr>"

text \<open>
  A store in which user u3 refers to a company that is not stored, and a store whose only
  order is not a document that decodes.
\<close>

definition orphan_service :: BadgerService where
  "orphan_service =
     \<lparr>db = \<lparr>kv = [(''companies:1'', ''A''), (''users:1'', ''u1''), (''users:3'', ''u3'')],
             fault = None\<rparr>,
      counters = [''companies'' \<mapsto> 1, ''users'' \<mapsto> 3]\<rparr>"

definition broken_service :: BadgerService where
  "broken_service =
     \<lparr>db = \<lparr>kv = [(''counter:orders'', ''1''), (''orders:1'', ''x'')], fault = None\<rparr>,
      counters = [''orders'' \<mapsto> 1]\<rparr>"

text \<open>
  A fresh store, the service that \<^verbatim>\<open>NewBadgerService\<close> builds on it, the fresh
  service after \<^verbatim>\<open>create\<close> has stored u2 under the identifier 2 and u10 under 10,
  and a service whose store fails every transaction.
\<close>

definition fresh_db :: DB where
  "fresh_db = \<lparr>kv = [], fault = None\<rparr>"

definition fresh_service :: BadgerService where
  "fresh_service =
     \<lparr>db = fresh_db,
      counters = [''users'' \<mapsto> 0, ''companies'' \<mapsto> 0, ''orders'' \<mapsto> 0,
                  ''products'' \<mapsto> 0, ''categories'' \<mapsto> 0]\<rparr>"


definition closed_service :: BadgerService where
  "closed_service =
     \<lparr>db = \<lparr>kv = [], fault = Some (ErrStore ''closed'')\<rparr>, counters = Map.empty\<rparr>"

text \<open>
  Three allocations for users, with a create, an allocation for orders, the deletion of
  user 1 and the loss of the whole store contents in between.
\<close>

definition example_steps :: "step list" where
  "example_steps =
     [Allocate ''users'', Create ''users'' 1 (Some ''u1''), Allocate ''orders'',
      Delete ''users'' 1, Allocate ''users'', Edit (\<lambda>d. d\<lparr>kv := []\<rparr>), Allocate ''users'']"

section \<open>Properties\<close>

subsection \<open>Reads leave the state alone\<close>

lemma db_View_db: "snd (db_View fn d) = d"
  by (simp add: db_View_def split: option.splits)

lemma get_state: "snd (get u e i s) = s"
  by (simp add: get_def split_beta db_View_db)

lemma list_state: "snd (list u e s) = s"
  by (simp add: list_def split_beta db_View_db)

lemma get_eq: "get u e i s = (fst (get u e i s), s)"
  by (metis get_state prod.collapse)

lemma list_eq: "list u e s = (fst (list u e s), s)"
  by (metis list_state prod.collapse)

lemma get_cases:
  obtains (fails) err where "get u e i s = (Inl err, s)"
      | (found) x where "get u e i s = (Inr x, s)"
  by (cases "fst (get u e i s)") (metis get_eq)+

lemma list_cases:
  obtains (fails) err where "list u e s = (Inl err, s)"
      | (found) xs where "list u e s = (Inr xs, s)"
  by (cases "fst (list u e s)") (metis list_eq)+

lemma GetUsersWithCompanies_loop_state:
  "snd (GetUsersWithCompanies_loop js users results s) = s"
proof (induction users arbitrary: results)
  case Nil
  show ?case by simp
next
  case (Cons user rest)
  show ?case
    by (cases rule: get_cases [of "Unmarshal_Company js" "''companies''" "User.CompanyID user" s])
       (simp_all add: Cons.IH)
qed

lemma GetOrdersWithDetails_loop_state:
  "snd (GetOrdersWithDetails_loop js orders results s) = s"
proof (induction orders arbitrary: results)
  case Nil
  show ?case by simp
next
  case (Cons order rest)
  show ?case
  proof (cases rule: get_cases [of "Unmarshal_User js" "''users''" "Order.UserID order" s])
    case (fails err)
    then show ?thesis by (simp add: Cons.IH)
  next
    case user: (found user)
    show ?thesis
    proof (cases rule: get_cases [of "Unmarshal_Product js" "''products''" "Order.ProductID order" s])
      case (fails err)
      then show ?thesis using user by (simp add: Cons.IH)
    next
      case product: (found product)
      show ?thesis
        by (cases rule: get_cases [of "Unmarshal_Category js" "''categories''"
              "Product.CategoryID product" s])
           (simp_all add: user product Cons.IH)
    qed
  qed
qed

lemma GetUserOrdersWithProducts_loop_state:
  "snd (GetUserOrdersWithProducts_loop js userID user orders results s) = s"
proof (induction orders arbitrary: results)
  case Nil
  show ?case by simp
next
  case (Cons order rest)
  show ?case
  proof (cases "Order.UserID order = userID")
    case False
    then show ?thesis by (simp add: Cons.IH)
  next
    case True
    show ?thesis
    proof (cases rule: get_cases [of "Unmarshal_Product js" "''products''" "Order.ProductID order" s])
      case (fails err)
      then show ?thesis using True by (simp add: Cons.IH)
    next
      case product: (found product)
      show ?thesis
        by (cases rule: get_cases [of "Unmarshal_Category js" "''categories''"
              "Product.CategoryID product" s])
           (simp_all add: True product Cons.IH)
    qed
  qed
qed

lemma GetUsersWithCompanies_state: "snd (GetUsersWithCompanies js s) = s"
  by (cases rule: list_cases [of "Unmarshal_User js" "''users''" s])
     (simp_all add: GetUsersWithCompanies_def split_beta GetUsersWithCompanies_loop_state)

lemma GetOrdersWithDetails_state: "snd (GetOrdersWithDetails js s) = s"
  by (cases rule: list_cases [of "Unmarshal_Order js" "''orders''" s])
     (simp_all add: GetOrdersWithDetails_def split_beta GetOrdersWithDetails_loop_state)

lemma GetUserOrdersWithProducts_state: "snd (GetUserOrdersWithProducts js userID s) = s"
proof (cases rule: list_cases [of "Unmarshal_Order js" "''orders''" s])
  case (fails err)
  then show ?thesis by (simp add: GetUserOrdersWithProducts_def)
next
  case orders: (found orders)
  show ?thesis
    by (cases rule: get_cases [of "Unmarshal_User js" "''users''" userID s])
       (simp_all add: orders GetUserOrdersWithProducts_def split_beta
          GetUserOrdersWithProducts_loop_state)
qed

lemma GetCompanyStats_state: "snd (GetCompanyStats js s) = s"
proof (cases rule: list_cases [of "Unmarshal_Company js" "''companies''" s])
  case (fails err)
  then show ?thesis by (simp add: GetCompanyStats_def)
next
  case companies: (found companies)
  show ?thesis
  proof (cases rule: list_cases [of "Unmarshal_User js" "''users''" s])
    case (fails err)
    then show ?thesis using companies by (simp add: GetCompanyStats_def)
  next
    case users: (found users)
    show ?thesis
      by (cases rule: list_cases [of "Unmarshal_Order js" "''orders''" s])
         (simp_all add: companies users GetCompanyStats_def)
  qed
qed

lemma GetTopSellingProductsByCategory_state:
  "snd (GetTopSellingProductsByCategory range_order js s) = s"
proof (cases rule: list_cases [of "Unmarshal_Order js" "''orders''" s])
  case (fails err)
  then show ?thesis by (simp add: GetTopSellingProductsByCategory_def)
next
  case orders: (found orders)
  show ?thesis
  proof (cases rule: list_cases [of "Unmarshal_Product js" "''products''" s])
    case (fails err)
    then show ?thesis using orders by (simp add: GetTopSellingProductsByCategory_def)
  next
    case products: (found products)
    show ?thesis
      by (cases rule: list_cases [of "Unmarshal_Category js" "''categories''" s])
         (simp_all add: orders products GetTopSellingProductsByCategory_def)
  qed
qed

text \<open>
  Claim C8. None of the five join and aggregation queries changes the persisted state:
  each of them returns the service state it was given, whatever the store holds, so the
  store contents after the query are the contents before it.
\<close>

theorem queries_leave_state_unchanged:
  "snd (GetUsersWithCompanies js s) = s
   \<and> snd (GetOrdersWithDetails js s) = s
   \<and> snd (GetCompanyStats js s) = s
   \<and> snd (GetUserOrdersWithProducts js userID s) = s
   \<and> snd (GetTopSellingProductsByCategory range_order js s) = s"
  by (simp add: GetUsersWithCompanies_state GetOrdersWithDetails_state GetCompanyStats_state
      GetUserOrdersWithProducts_state GetTopSellingProductsByCategory_state)

subsection \<open>What get and list return\<close>

lemma get_result:
  "fst (get u e i s) =
     (case fault (db s) of
        Some err \<Rightarrow> Inl err
      | None \<Rightarrow>
          (case map_of (kv (db s)) (entity_key e i) of
             None \<Rightarrow> Inl ErrKeyNotFound
           | Some val \<Rightarrow> (case u val of None \<Rightarrow> Inl ErrJSON | Some x \<Rightarrow> Inr x)))"
  by (simp add: get_def split_beta db_View_def txn_Get_def NewTransaction_def
      split: option.splits)

lemma list_result:
  "fst (list u e s) =
     (case fault (db s) of
        Some err \<Rightarrow> Inl err
      | None \<Rightarrow>
          (case those (map u (scan (entity_prefix e) (kv (db s)))) of
             None \<Rightarrow> Inl ErrJSON
           | Some xs \<Rightarrow> Inr xs))"
  by (simp add: list_def split_beta db_View_def it_Seek_def NewTransaction_def scan_def Let_def
      split: option.splits)

lemma list_fault: "fault (db s) = Some err \<Longrightarrow> fst (list u e s) = Inl err"
  by (simp add: list_result)

subsection \<open>The example evaluated\<close>

lemma example_fault: "fault (db example_service) = None"
  by (simp add: example_service_def)

lemma example_scan:
  "scan (entity_prefix ''users'') (kv (db example_service)) = [''u1'', ''u2'']"
  "scan (entity_prefix ''companies'') (kv (db example_service)) = [''A'', ''B'']"
  "scan (entity_prefix ''orders'') (kv (db example_service)) = [''o1'', ''o2'', ''o3'']"
  "scan (entity_prefix ''products'') (kv (db example_service)) = [''p1'', ''p2'']"
  "scan (entity_prefix ''categories'') (kv (db example_service)) = [''c1'']"
  by (simp_all add: scan_def entity_prefix_def example_service_def)

lemma example_list_users:
  "fst (list (Unmarshal_User example_json) ''users'' example_service) = Inr [user_u1, user_u2]"
  by (simp add: list_result example_scan example_fault example_json_def)

lemma example_list_companies:
  "fst (list (Unmarshal_Company example_json) ''companies'' example_service) =
     Inr [company_A, company_B]"
  by (simp add: list_result example_scan example_fault example_json_def)

lemma example_list_orders:
  "fst (list (Unmarshal_Order example_json) ''orders'' example_service) =
     Inr [order_o1, order_o2, order_o3]"
  by (simp add: list_result example_scan example_fault example_json_def)

lemma example_list_products:
  "fst (list (Unmarshal_Product example_json) ''products'' example_service) =
     Inr [product_p1, product_p2]"
  by (simp add: list_result example_scan example_fault example_json_def)

lemma example_list_categories:
  "fst (list (Unmarshal_Category example_json) ''categories'' example_service) =
     Inr [category_c1]"
  by (simp add: list_result example_scan example_fault example_json_def)

lemma example_keys:
  "entity_key e 1 = e @ '':1''" "entity_key e 2 = e @ '':2''" "entity_key e 3 = e @ '':3''"
  "entity_key e 7 = e @ '':7''" "entity_key e 9 = e @ '':9''"
  by (simp_all add: entity_key_def fmt_d_def dec.simps)

lemma example_get_user:
  "fst (get (Unmarshal_User example_json) ''users'' 1 example_service) = Inr user_u1"
  "fst (get (Unmarshal_User example_json) ''users'' 7 example_service) = Inl ErrKeyNotFound"
  by (simp_all add: get_result example_keys example_service_def example_json_def)

subsection \<open>Join 1\<close>

lemma GetUsersWithCompanies_loop_rows:
  "GetUsersWithCompanies_loop js users results s =
     (results @ List.map_filter (company_row js s) users, s)"
proof (induction users arbitrary: results)
  case Nil
  show ?case by (simp add: List.map_filter_simps)
next
  case (Cons user rest)
  show ?case
    by (cases rule: get_cases [of "Unmarshal_Company js" "''companies''" "User.CompanyID user" s])
       (simp_all add: Cons.IH List.map_filter_simps company_row_def)
qed

text \<open>
  Claim C3. When the users can be listed, \<^verbatim>\<open>GetUsersWithCompanies\<close> returns, in the
  order of that listing, one row for every user whose company lookup succeeds, pairing
  the user with the company found, and no row for a user whose lookup fails. When the
  listing fails, so does the query.
\<close>

theorem GetUsersWithCompanies_rows:
  "fst (GetUsersWithCompanies js s) =
     (case fst (list (Unmarshal_User js) ''users'' s) of
        Inl err \<Rightarrow> Inl err
      | Inr users \<Rightarrow> Inr (List.map_filter (company_row js s) users))"
  by (cases rule: list_cases [of "Unmarshal_User js" "''users''" s])
     (simp_all add: GetUsersWithCompanies_def GetUsersWithCompanies_loop_rows)

lemma orphan_list_users:
  "fst (list (Unmarshal_User example_json) ''users'' orphan_service) = Inr [user_u1, user_u3]"
  by (simp add: list_result scan_def entity_prefix_def orphan_service_def example_json_def)

lemma orphan_rows:
  "company_row example_json orphan_service user_u1 =
     Some \<lparr>UserWithCompany.User = user_u1, Company = company_A\<rparr>"
  "company_row example_json orphan_service user_u3 = None"
  by (simp_all add: company_row_def get_result entity_key_def fmt_d_def dec.simps
      orphan_service_def example_json_def user_u1_def user_u3_def)

text \<open>
  With u1 of the stored company A and u3 of a company that is not stored, the join returns
  the row of u1 alone.
\<close>

theorem GetUsersWithCompanies_rows_example:
  "fst (GetUsersWithCompanies example_json orphan_service) =
     Inr [\<lparr>UserWithCompany.User = user_u1, Company = company_A\<rparr>]"
  using GetUsersWithCompanies_rows [of example_json orphan_service]
  by (simp add: orphan_list_users orphan_rows List.map_filter_simps)

subsection \<open>Aggregation 3\<close>

lemma slice_at_upd: "slice_at (m(k \<mapsto> xs)) k' = (if k' = k then xs else slice_at m k')"
  by (simp add: slice_at_def)

lemma slice_at_empty: "slice_at Map.empty k = []"
  by (simp add: slice_at_def)

lemma usersByCompany_loop_slice:
  "slice_at (usersByCompany_loop users m) k =
     slice_at m k @ filter (\<lambda>user. User.CompanyID user = k) users"
  by (induction users arbitrary: m) (simp_all add: slice_at_upd)

lemma attribute_order_slice:
  "slice_at (attribute_order order users m) k =
     slice_at m k @ (if order_company users order = Some k then [order] else [])"
  by (induction users arbitrary: m) (auto simp: slice_at_upd order_company_def)

lemma ordersByCompany_loop_slice:
  "slice_at (ordersByCompany_loop orders users m) k =
     slice_at m k @ filter (\<lambda>order. order_company users order = Some k) orders"
  by (induction orders arbitrary: m) (simp_all add: attribute_order_slice)

lemma revenue_loop_foldl:
  "revenue_loop orders revenue = foldl (+) revenue (map Order.Amount orders)"
  by (induction orders arbitrary: revenue) simp_all

lemma CompanyStats_loop_rows:
  "CompanyStats_loop companies (usersByCompany_loop users Map.empty)
       (ordersByCompany_loop orders users Map.empty) results =
     results @ map (company_stats users orders) companies"
proof (induction companies arbitrary: results)
  case Nil
  show ?case by simp
next
  case (Cons company rest)
  have "slice_at (usersByCompany_loop users Map.empty) (Company.ID company) =
          company_users users company"
    by (simp add: usersByCompany_loop_slice company_users_def slice_at_empty)
  moreover have "slice_at (ordersByCompany_loop orders users Map.empty) (Company.ID company) =
          company_orders users orders company"
    by (simp add: ordersByCompany_loop_slice company_orders_def slice_at_empty)
  ultimately show ?case
    by (simp add: Cons.IH Let_def company_stats_def revenue_loop_foldl)
qed

lemma order_company_user:
  "order_company users order = Some k \<Longrightarrow> \<exists>user \<in> set users. User.CompanyID user = k"
  by (auto simp: order_company_def find_Some_iff)

lemma company_orders_empty:
  "company_users users company = [] \<Longrightarrow> company_orders users orders company = []"
  by (auto simp: company_users_def company_orders_def filter_empty_conv
      dest: order_company_user)

text \<open>
  Claim C4. When the companies, users and orders can be listed, \<^verbatim>\<open>GetCompanyStats\<close>
  returns one row for every listed company, in listing order, holding the number of users
  that refer to the company, the number of orders attributed to it through their users,
  and the sum of these orders' amounts. A company without users or orders gets the row
  with the counts 0 and the revenue 0, since the three are then taken over empty lists.
\<close>

theorem GetCompanyStats_rows:
  assumes "fst (list (Unmarshal_Company js) ''companies'' s) = Inr companies"
    and "fst (list (Unmarshal_User js) ''users'' s) = Inr users"
    and "fst (list (Unmarshal_Order js) ''orders'' s) = Inr orders"
  shows "fst (GetCompanyStats js s) = Inr (map (company_stats users orders) companies)
       \<and> (\<forall>company. company_users users company = [] \<longrightarrow>
             company_stats users orders company =
               \<lparr>Company = company, UserCount = 0, OrderCount = 0,
                CompanyStats.TotalRevenue = 0\<rparr>)"
proof -
  from assms have "list (Unmarshal_Company js) ''companies'' s = (Inr companies, s)"
    and "list (Unmarshal_User js) ''users'' s = (Inr users, s)"
    and "list (Unmarshal_Order js) ''orders'' s = (Inr orders, s)"
    using list_eq by metis+
  then have "fst (GetCompanyStats js s) = Inr (map (company_stats users orders) companies)"
    by (simp add: GetCompanyStats_def CompanyStats_loop_rows)
  then show ?thesis
    by (simp add: company_stats_def company_orders_empty)
qed

text \<open>
  The example of the claim: A has 1 user, 2 orders and revenue 15; B has 1 user, 1 order
  and revenue 7. A company C to which no user refers has the row of zeros.
\<close>

theorem GetCompanyStats_example:
  "fst (GetCompanyStats example_json example_service) =
     Inr [\<lparr>Company = company_A, UserCount = 1, OrderCount = 2, CompanyStats.TotalRevenue = 15\<rparr>,
          \<lparr>Company = company_B, UserCount = 1, OrderCount = 1, CompanyStats.TotalRevenue = 7\<rparr>]
   \<and> company_users [user_u1, user_u2] company_C = []
   \<and> company_stats [user_u1, user_u2] [order_o1, order_o2, order_o3] company_C =
       \<lparr>Company = company_C, UserCount = 0, OrderCount = 0, CompanyStats.TotalRevenue = 0\<rparr>"
  using GetCompanyStats_rows [OF example_list_companies example_list_users example_list_orders]
  by (simp add: company_stats_def company_users_def company_orders_def order_company_def
      company_A_def company_B_def company_C_def user_u1_def user_u2_def
      order_o1_def order_o2_def order_o3_def)

subsection \<open>Join 4\<close>

lemma GetUserOrdersWithProducts_loop_rows:
  "GetUserOrdersWithProducts_loop js userID user orders results s =
     (results @ List.map_filter (details_row js s user)
                  (filter (\<lambda>order. Order.UserID order = userID) orders), s)"
proof (induction orders arbitrary: results)
  case Nil
  show ?case by (simp add: List.map_filter_simps)
next
  case (Cons order rest)
  show ?case
  proof (cases "Order.UserID order = userID")
    case False
    then show ?thesis by (simp add: Cons.IH)
  next
    case True
    show ?thesis
    proof (cases rule: get_cases [of "Unmarshal_Product js" "''products''" "Order.ProductID order" s])
      case (fails err)
      then show ?thesis
        using True by (simp add: Cons.IH List.map_filter_simps details_row_def)
    next
      case product: (found product)
      show ?thesis
        by (cases rule: get_cases [of "Unmarshal_Category js" "''categories''"
              "Product.CategoryID product" s])
           (simp_all add: True product Cons.IH List.map_filter_simps details_row_def)
    qed
  qed
qed

lemma GetUserOrdersWithProducts_result:
  "fst (GetUserOrdersWithProducts js userID s) =
     (case fst (list (Unmarshal_Order js) ''orders'' s) of
        Inl err \<Rightarrow> Inl err
      | Inr orders \<Rightarrow>
          (case fst (get (Unmarshal_User js) ''users'' userID s) of
             Inl err \<Rightarrow> Inl (Errorf ''user not found'' err)
           | Inr user \<Rightarrow>
               Inr (List.map_filter (details_row js s user)
                      (filter (\<lambda>order. Order.UserID order = userID) orders))))"
proof (cases rule: list_cases [of "Unmarshal_Order js" "''orders''" s])
  case (fails err)
  then show ?thesis by (simp add: GetUserOrdersWithProducts_def)
next
  case orders: (found orders)
  show ?thesis
    by (cases rule: get_cases [of "Unmarshal_User js" "''users''" userID s])
       (simp_all add: orders GetUserOrdersWithProducts_def GetUserOrdersWithProducts_loop_rows)
qed

lemma details_row_fields:
  "details_row js s user order = Some row \<Longrightarrow>
     OrderWithDetails.Order row = order \<and> OrderWithDetails.User row = user"
  by (auto simp: details_row_def split: sum.splits)

lemma map_filter_mem:
  "row \<in> set (List.map_filter f xs) \<Longrightarrow> \<exists>x \<in> set xs. f x = Some row"
  by (auto simp: List.map_filter_def)

text \<open>
  Claim C9. Every row of a successful \<^verbatim>\<open>GetUserOrdersWithProducts(userID)\<close> holds a
  listed order whose \<^verbatim>\<open>UserID\<close> is the given one, and holds the one user record that
  the lookup of \<^verbatim>\<open>userID\<close> returned; orders of other users do not occur.
\<close>

theorem GetUserOrdersWithProducts_rows_of_user:
  assumes "fst (GetUserOrdersWithProducts js userID s) = Inr rows"
  shows "\<exists>user orders.
           fst (get (Unmarshal_User js) ''users'' userID s) = Inr user
         \<and> fst (list (Unmarshal_Order js) ''orders'' s) = Inr orders
         \<and> (\<forall>row \<in> set rows.
              OrderWithDetails.Order row \<in> set orders
            \<and> Order.UserID (OrderWithDetails.Order row) = userID
            \<and> OrderWithDetails.User row = user)"
proof -
  from assms obtain orders where orders: "fst (list (Unmarshal_Order js) ''orders'' s) = Inr orders"
    by (cases "fst (list (Unmarshal_Order js) ''orders'' s)")
       (simp_all add: GetUserOrdersWithProducts_result)
  from assms orders obtain user
    where user: "fst (get (Unmarshal_User js) ''users'' userID s) = Inr user"
    by (cases "fst (get (Unmarshal_User js) ''users'' userID s)")
       (simp_all add: GetUserOrdersWithProducts_result)
  from assms orders user
  have rows: "rows = List.map_filter (details_row js s user)
                       (filter (\<lambda>order. Order.UserID order = userID) orders)"
    by (simp add: GetUserOrdersWithProducts_result)
  have "OrderWithDetails.Order row \<in> set orders
      \<and> Order.UserID (OrderWithDetails.Order row) = userID
      \<and> OrderWithDetails.User row = user" if "row \<in> set rows" for row
  proof -
    from that rows
    have "row \<in> set (List.map_filter (details_row js s user)
                        (filter (\<lambda>order. Order.UserID order = userID) orders))"
      by simp
    then obtain order
      where mem: "order \<in> set (filter (\<lambda>order. Order.UserID order = userID) orders)"
        and row: "details_row js s user order = Some row"
      by (blast dest: map_filter_mem)
    from mem have "order \<in> set orders" "Order.UserID order = userID" by simp_all
    with details_row_fields [OF row] show ?thesis by simp
  qed
  with orders user show ?thesis by blast
qed

lemma example_details_o1:
  "details_row example_json example_service user_u1 order_o1 =
     Some \<lparr>Order = order_o1, User = user_u1, Product = product_p1, Category = category_c1\<rparr>"
  by (simp add: details_row_def get_result example_keys example_service_def example_json_def
      order_o1_def product_p1_def)

lemma example_details_o2:
  "details_row example_json example_service user_u1 order_o2 = None"
  by (simp add: details_row_def get_result example_keys example_service_def example_json_def
      order_o2_def product_p2_def)

lemma example_user_orders:
  "fst (GetUserOrdersWithProducts example_json 1 example_service) =
     Inr [\<lparr>Order = order_o1, User = user_u1, Product = product_p1, Category = category_c1\<rparr>]"
  by (simp add: GetUserOrdersWithProducts_result example_list_orders example_get_user
      List.map_filter_simps example_details_o1 example_details_o2)
     (simp add: order_o1_def order_o2_def order_o3_def)

text \<open>
  In the example, user 1 has the orders o1 and o2; o2 is dropped because the category of
  its product is not stored, o3 belongs to user 2.
\<close>

theorem GetUserOrdersWithProducts_rows_of_user_example:
  "\<exists>user orders.
     fst (get (Unmarshal_User example_json) ''users'' 1 example_service) = Inr user
   \<and> fst (list (Unmarshal_Order example_json) ''orders'' example_service) = Inr orders
   \<and> (\<forall>row \<in> set [\<lparr>Order = order_o1, User = user_u1, Product = product_p1,
                        Category = category_c1\<rparr>].
        OrderWithDetails.Order row \<in> set orders
      \<and> Order.UserID (OrderWithDetails.Order row) = 1
      \<and> OrderWithDetails.User row = user)"
  by (rule GetUserOrdersWithProducts_rows_of_user [OF example_user_orders])

text \<open>
  Claim C2, amended. When no user record is stored under the given \<^verbatim>\<open>userID\<close>,
  \<^verbatim>\<open>GetUserOrdersWithProducts\<close> fails and returns no rows. The orders are listed
  before the user is looked up: if that listing fails, its error is the result;
  otherwise the result is the error "user not found" wrapping the store's
  key-not-found error.
\<close>

theorem GetUserOrdersWithProducts_no_user:
  assumes "map_of (kv (db s)) (entity_key ''users'' userID) = None"
  shows "fst (GetUserOrdersWithProducts js userID s) =
           (case fst (list (Unmarshal_Order js) ''orders'' s) of
              Inl err \<Rightarrow> Inl err
            | Inr orders \<Rightarrow> Inl (Errorf ''user not found'' ErrKeyNotFound))"
proof (cases "fault (db s)")
  case None
  then have "fst (get (Unmarshal_User js) ''users'' userID s) = Inl ErrKeyNotFound"
    using assms by (simp add: get_result)
  then show ?thesis
    by (simp add: GetUserOrdersWithProducts_result split: sum.splits)
next
  case (Some err)
  then show ?thesis
    by (simp add: GetUserOrdersWithProducts_result list_fault)
qed

lemma example_no_user7: "map_of (kv (db example_service)) (entity_key ''users'' 7) = None"
  by (simp add: example_keys example_service_def)

text \<open>In the example no user 7 is stored and the orders can be listed.\<close>

theorem GetUserOrdersWithProducts_no_user_example:
  "map_of (kv (db example_service)) (entity_key ''users'' 7) = None
   \<and> fst (GetUserOrdersWithProducts example_json 7 example_service) =
       Inl (Errorf ''user not found'' ErrKeyNotFound)"
  using GetUserOrdersWithProducts_no_user [OF example_no_user7, of example_json]
  by (simp add: example_no_user7 example_list_orders)

text \<open>
  Claim C2 as stated fails: with no user 7 stored and an order that cannot be decoded, the
  query returns the error of listing the orders, not the not-found error.
\<close>

theorem GetUserOrdersWithProducts_no_user_listing_fails:
  "map_of (kv (db broken_service)) (entity_key ''users'' 7) = None
   \<and> fst (GetUserOrdersWithProducts example_json 7 broken_service) = Inl ErrJSON
   \<and> fst (GetUserOrdersWithProducts example_json 7 broken_service)
       \<noteq> Inl (Errorf ''user not found'' ErrKeyNotFound)"
  by (simp add: GetUserOrdersWithProducts_result list_result scan_def entity_prefix_def
      example_keys broken_service_def example_json_def)

subsection \<open>Query 5\<close>

lemma find_snoc:
  "find P (xs @ [x]) =
     (case find P xs of None \<Rightarrow> (if P x then Some x else None) | Some y \<Rightarrow> Some y)"
  by (induction xs) simp_all

lemma categoryMap_loop_find:
  "categoryMap_loop categories m k =
     (case find (\<lambda>category. Category.ID category = k) (rev categories) of
        None \<Rightarrow> m k
      | Some category \<Rightarrow> Some category)"
  by (induction categories arbitrary: m) (auto simp: find_snoc split: option.splits)

lemma productMap_loop_find:
  "productMap_loop products m k =
     (case find (\<lambda>product. Product.ID product = k) (rev products) of
        None \<Rightarrow> m k
      | Some product \<Rightarrow> Some product)"
  by (induction products arbitrary: m) (auto simp: find_snoc split: option.splits)

lemma productMap_known:
  "productMap_loop products Map.empty (Order.ProductID order) \<noteq> None
     \<longleftrightarrow> known_product products order"
proof -
  have "find (\<lambda>product. Product.ID product = Order.ProductID order) (rev products) = None
          \<longleftrightarrow> \<not> known_product products order"
    by (auto simp: find_None_iff known_product_def image_iff)
  then show ?thesis
    by (cases "find (\<lambda>product. Product.ID product = Order.ProductID order) (rev products)")
       (simp_all add: productMap_loop_find)
qed

lemma productStats_loop_skip:
  "productStats_loop orders pm acc =
     productStats_loop (filter (\<lambda>order. pm (Order.ProductID order) \<noteq> None) orders) pm acc"
  by (induction orders arbitrary: acc) (auto simp: Let_def split: option.splits)

lemma category_name_key:
  "Category.Name (case categoryMap_loop categories Map.empty (Product.CategoryID (Product stats)) of
                    None \<Rightarrow> zero_Category
                  | Some c \<Rightarrow> c) = group_key categories stats"
  by (simp add: categoryMap_loop_find group_key_def zero_Category_def split: option.splits)

lemma stats_rebuilt:
  "\<lparr>Product = Product stats, TotalOrders = TotalOrders stats,
    TotalRevenue = ProductStats.TotalRevenue stats\<rparr> = (stats :: 'f ProductStats)"
  by (cases stats) simp

lemma slice_at_append:
  "slice_at (result(key \<mapsto> slice_at result key @ [x])) name =
     slice_at result name @ (if key = name then [x] else [])"
  by (simp add: slice_at_def)

lemma group_loop_step:
  "group_loop ((k, stats) # rest) (categoryMap_loop categories Map.empty) result =
     group_loop rest (categoryMap_loop categories Map.empty)
       (result(group_key categories stats \<mapsto>
                 slice_at result (group_key categories stats) @ [stats]))"
  by (simp add: Let_def category_name_key stats_rebuilt)

lemma group_loop_slice:
  "slice_at (group_loop entries (categoryMap_loop categories Map.empty) result) name =
     slice_at result name @
     filter (\<lambda>stats. group_key categories stats = name) (map snd entries)"
proof (induction entries arbitrary: result)
  case Nil
  show ?case by simp
next
  case (Cons entry rest)
  obtain k stats where entry: "entry = (k, stats)" by (cases entry)
  have "slice_at (group_loop (entry # rest) (categoryMap_loop categories Map.empty) result) name =
          (slice_at result name @ (if group_key categories stats = name then [stats] else []))
          @ filter (\<lambda>stats. group_key categories stats = name) (map snd rest)"
    unfolding entry group_loop_step Cons.IH slice_at_append ..
  then show ?case by (simp add: entry)
qed

lemma insert_by_mset: "mset (insert_by lt x ys) = add_mset x (mset ys)"
  by (induction ys) simp_all

lemma sort_Slice_mset: "mset (sort_Slice lt xs) = mset xs"
  by (induction xs) (simp_all add: sort_Slice_def insert_by_mset)

lemma insert_by_set: "set (insert_by lt x ys) = insert x (set ys)"
  by (induction ys) auto

lemma insert_by_sorted:
  fixes f :: "'a \<Rightarrow> 'b::linorder"
  shows "sorted_wrt (\<lambda>a b. f a \<ge> f b) ys \<Longrightarrow>
         sorted_wrt (\<lambda>a b. f a \<ge> f b) (insert_by (\<lambda>a b. f a > f b) x ys)"
  by (induction ys) (auto simp: insert_by_set)

lemma sort_Slice_sorted:
  fixes f :: "'a \<Rightarrow> 'b::linorder"
  shows "sorted_wrt (\<lambda>a b. f a \<ge> f b) (sort_Slice (\<lambda>a b. f a > f b) xs)"
proof (induction xs)
  case Nil
  show ?case by (simp add: sort_Slice_def)
next
  case (Cons x xs)
  then show ?case
    using insert_by_sorted [of f "sort_Slice (\<lambda>a b. f a > f b) xs" x]
    by (simp add: sort_Slice_def)
qed

lemma sort_groups_slice:
  "slice_at (sort_groups result) name =
     sort_Slice (\<lambda>a b. ProductStats.TotalRevenue a > ProductStats.TotalRevenue b)
       (slice_at result name)"
  by (simp add: sort_groups_def slice_at_def sort_Slice_def split: option.splits)

lemma mset_filter_snd:
  "mset ys = mset xs \<Longrightarrow> mset (filter P (map snd ys)) = mset (filter P (map snd xs))"
  by (metis mset_filter mset_map)

lemma top_selling_skip:
  "top_selling range_order orders products categories =
     top_selling range_order (filter (known_product products) orders) products categories"
proof -
  have "(\<lambda>order. productMap_loop products Map.empty (Order.ProductID order) \<noteq> None) =
        known_product products"
    by (rule ext) (rule productMap_known)
  then have "productStats_loop orders (productMap_loop products Map.empty) [] =
        productStats_loop (filter (known_product products) orders)
          (productMap_loop products Map.empty) []"
    using productStats_loop_skip [of orders "productMap_loop products Map.empty" "[]"]
    by (simp only:)
  then show ?thesis by (simp add: top_selling_def)
qed

lemma top_selling_groups:
  assumes "\<And>xs. mset (range_order xs) = mset xs"
  shows "mset (slice_at (top_selling range_order orders products categories) name) =
           mset (filter (\<lambda>stats. group_key categories stats = name)
                   (map snd (productStats_loop orders (productMap_loop products Map.empty) [])))"
proof -
  let ?stats = "productStats_loop orders (productMap_loop products Map.empty) []"
  have "slice_at (top_selling range_order orders products categories) name =
          sort_Slice (\<lambda>a b. ProductStats.TotalRevenue a > ProductStats.TotalRevenue b)
            (filter (\<lambda>stats. group_key categories stats = name)
               (map snd (range_order ?stats)))"
    by (simp add: top_selling_def Let_def sort_groups_slice group_loop_slice slice_at_empty)
  then have "mset (slice_at (top_selling range_order orders products categories) name) =
          mset (filter (\<lambda>stats. group_key categories stats = name)
                  (map snd (range_order ?stats)))"
    by (simp only: sort_Slice_mset)
  also have "\<dots> = mset (filter (\<lambda>stats. group_key categories stats = name) (map snd ?stats))"
    by (rule mset_filter_snd) (rule assms)
  finally show ?thesis .
qed

lemma top_selling_sorted:
  fixes orders :: "('f::{zero,plus,linorder}) Order list"
  shows "sorted_wrt (\<lambda>a b. ProductStats.TotalRevenue a \<ge> ProductStats.TotalRevenue b)
     (slice_at (top_selling range_order orders products categories) name)"
  by (simp add: top_selling_def Let_def sort_groups_slice sort_Slice_sorted)

lemma stats_put_map_of:
  "map_of (stats_put k v xs) k' = (if k' = k then Some v else map_of xs k')"
  by (induction xs) auto

lemma stats_put_keys: "fst ` set (stats_put k v xs) = insert k (fst ` set xs)"
proof (induction xs)
  case Nil
  show ?case by simp
next
  case (Cons x xs)
  obtain k' v' where x: "x = (k', v')" by (cases x)
  show ?case
    using Cons.IH by (cases "k = k'") (simp_all add: x insert_commute)
qed

lemma stats_put_distinct:
  "distinct (map fst xs) \<Longrightarrow> distinct (map fst (stats_put k v xs))"
  by (induction xs) (auto simp: stats_put_keys)

lemma productStats_loop_step:
  "pm (Order.ProductID order) = Some product \<Longrightarrow>
   productStats_loop (order # rest) pm acc =
     productStats_loop rest pm
       (stats_put (Product.ID product)
          (count_order product
             (case map_of acc (Product.ID product) of None \<Rightarrow> zero_ProductStats | Some st \<Rightarrow> st)
             order)
          acc)"
  by (simp add: Let_def count_order_def)

lemma productStats_loop_distinct:
  "distinct (map fst acc) \<Longrightarrow> distinct (map fst (productStats_loop orders pm acc))"
proof (induction orders arbitrary: acc)
  case Nil
  then show ?case by simp
next
  case (Cons order rest)
  show ?case
  proof (cases "pm (Order.ProductID order)")
    case None
    then show ?thesis using Cons by simp
  next
    case (Some product)
    show ?thesis
      unfolding productStats_loop_step [where pm = pm and order = order, OF Some]
      by (rule Cons.IH) (rule stats_put_distinct [OF Cons.prems])
  qed
qed

lemma productStats_loop_map_of:
  assumes keyed: "\<And>k p. pm k = Some p \<Longrightarrow> Product.ID p = k"
  shows "map_of (productStats_loop orders pm acc) k =
           (case pm k of
              None \<Rightarrow> map_of acc k
            | Some product \<Rightarrow>
                (if filter (\<lambda>order. Order.ProductID order = k) orders = [] then map_of acc k
                 else Some (foldl (count_order product)
                              (case map_of acc k of None \<Rightarrow> zero_ProductStats | Some st \<Rightarrow> st)
                              (filter (\<lambda>order. Order.ProductID order = k) orders))))"
proof (induction orders arbitrary: acc)
  case Nil
  show ?case by (simp split: option.splits)
next
  case (Cons order rest)
  show ?case
  proof (cases "pm (Order.ProductID order)")
    case None
    then have "productStats_loop (order # rest) pm acc = productStats_loop rest pm acc"
      by simp
    then show ?thesis
      using None by (auto simp: Cons.IH split: option.splits)
  next
    case (Some product)
    have id: "Product.ID product = Order.ProductID order"
      by (rule keyed [OF Some])
    show ?thesis
      unfolding productStats_loop_step [where pm = pm and order = order, OF Some] Cons.IH
      using Some id by (auto simp: stats_put_map_of split: option.splits)
  qed
qed

lemma foldl_count_order:
  "orders \<noteq> [] \<Longrightarrow>
   foldl (count_order product) stats orders =
     \<lparr>Product = product,
      TotalOrders = TotalOrders stats + int (length orders),
      TotalRevenue = foldl (+) (ProductStats.TotalRevenue stats) (map Order.Amount orders)\<rparr>"
proof (induction orders arbitrary: stats)
  case Nil
  then show ?case by simp
next
  case (Cons order rest)
  show ?case
  proof (cases "rest = []")
    case True
    then show ?thesis by (cases stats) (simp add: count_order_def)
  next
    case False
    then show ?thesis
      by (simp add: Cons.IH) (simp add: count_order_def)
  qed
qed

lemma productMap_keyed:
  "productMap_loop products Map.empty k = Some p \<Longrightarrow> Product.ID p = k"
  by (auto simp: productMap_loop_find find_Some_iff split: option.splits)

lemma productStats_lookup:
  "map_of (productStats_loop orders (productMap_loop products Map.empty) []) k =
     (if k \<in> Order.ProductID ` set orders
      then map_option (product_stats orders)
             (find (\<lambda>product. Product.ID product = k) (rev products))
      else None)"
proof -
  let ?pm = "productMap_loop products Map.empty"
  let ?os = "filter (\<lambda>order. Order.ProductID order = k) orders"
  have mem: "?os = [] \<longleftrightarrow> k \<notin> Order.ProductID ` set orders"
    by (auto simp: filter_empty_conv)
  have pm: "?pm k = find (\<lambda>product. Product.ID product = k) (rev products)"
    by (simp add: productMap_loop_find split: option.splits)
  show ?thesis
  proof (cases "?pm k")
    case None
    then show ?thesis
      using pm by (simp add: productStats_loop_map_of [of ?pm, OF productMap_keyed])
  next
    case (Some product)
    have id: "Product.ID product = k" by (rule productMap_keyed [OF Some])
    show ?thesis
    proof (cases "?os = []")
      case True
      then show ?thesis
        using Some mem by (simp add: productStats_loop_map_of [of ?pm, OF productMap_keyed])
    next
      case False
      then show ?thesis
        using Some mem pm id
        by (simp add: productStats_loop_map_of [of ?pm, OF productMap_keyed]
            foldl_count_order product_stats_def zero_ProductStats_def Let_def)
    qed
  qed
qed

lemma keyed_fst:
  "map fst (List.map_filter (\<lambda>k. map_option (Pair k) (g k)) ks) = filter (\<lambda>k. g k \<noteq> None) ks"
  by (induction ks) (auto simp: List.map_filter_simps split: option.splits)

lemma keyed_snd:
  "map snd (List.map_filter (\<lambda>k. map_option (Pair k) (g k)) ks) = List.map_filter g ks"
  by (induction ks) (auto simp: List.map_filter_simps split: option.splits)

lemma keyed_map_of:
  "map_of (List.map_filter (\<lambda>k. map_option (Pair k) (g k)) ks) k =
     (if k \<in> set ks then g k else None)"
  by (induction ks) (auto simp: List.map_filter_simps split: option.splits)

lemma productStats_entries:
  "mset (map snd (productStats_loop orders (productMap_loop products Map.empty) [])) =
     mset (product_entries orders products)"
proof -
  let ?L = "productStats_loop orders (productMap_loop products Map.empty) []"
  let ?g = "\<lambda>k. map_option (product_stats orders)
                  (find (\<lambda>product. Product.ID product = k) (rev products))"
  let ?R = "List.map_filter (\<lambda>k. map_option (Pair k) (?g k))
              (remdups (map Order.ProductID orders))"
  have dL: "distinct (map fst ?L)"
    by (rule productStats_loop_distinct) simp
  have "distinct (filter (\<lambda>k. ?g k \<noteq> None) (remdups (map Order.ProductID orders)))"
    by (rule distinct_filter) (rule distinct_remdups)
  then have dR: "distinct (map fst ?R)"
    by (simp only: keyed_fst)
  have "map_of ?L k = map_of ?R k" for k
    unfolding productStats_lookup keyed_map_of set_remdups set_map ..
  then have "map_of ?L = map_of ?R"
    by (rule ext)
  then have sets: "set ?L = set ?R"
    using map_of_inject_set [OF dL dR] by (simp only:)
  have "distinct ?L"
    by (rule distinct_map [THEN iffD1, THEN conjunct1]) (rule dL)
  moreover have "distinct ?R"
    by (rule distinct_map [THEN iffD1, THEN conjunct1]) (rule dR)
  ultimately have "mset ?L = mset ?R"
    using sets by (simp only: set_eq_iff_mset_eq_distinct)
  then have "image_mset snd (mset ?L) = image_mset snd (mset ?R)"
    by (rule arg_cong)
  then have "mset (map snd ?L) = mset (map snd ?R)"
    by (simp only: mset_map)
  then show ?thesis
    by (simp only: keyed_snd product_entries_def)
qed

text \<open>
  Claim C5. When the orders, products and categories can be listed, whatever order the
  runtime picks for ranging over the map of product statistics: orders whose product is
  not in the product map contribute nothing (the result is the one computed without
  them); the entries filed under a name are exactly the accumulated product entries whose
  category has that name, with the empty name for a category that cannot be resolved; and
  every group is sorted by descending total revenue.
\<close>

theorem GetTopSellingProductsByCategory_groups:
  fixes js :: "('f::{zero,plus,linorder}) json"
  assumes "\<And>entries. mset (range_order entries) = mset entries"
    and "fst (list (Unmarshal_Order js) ''orders'' s) = Inr orders"
    and "fst (list (Unmarshal_Product js) ''products'' s) = Inr products"
    and "fst (list (Unmarshal_Category js) ''categories'' s) = Inr categories"
  shows "\<exists>result.
           fst (GetTopSellingProductsByCategory range_order js s) = Inr result
         \<and> result = top_selling range_order (filter (known_product products) orders)
                      products categories
         \<and> (\<forall>name. mset (slice_at result name) =
                      mset (filter (\<lambda>stats. group_key categories stats = name)
                              (product_entries orders products)))
         \<and> (\<forall>name. sorted_wrt
                      (\<lambda>a b. ProductStats.TotalRevenue a \<ge> ProductStats.TotalRevenue b)
                      (slice_at result name))"
proof -
  from assms(2-4)
  have "list (Unmarshal_Order js) ''orders'' s = (Inr orders, s)"
    and "list (Unmarshal_Product js) ''products'' s = (Inr products, s)"
    and "list (Unmarshal_Category js) ''categories'' s = (Inr categories, s)"
    using list_eq by metis+
  then have result: "fst (GetTopSellingProductsByCategory range_order js s) =
      Inr (top_selling range_order orders products categories)"
    by (simp add: GetTopSellingProductsByCategory_def)
  have groups: "mset (slice_at (top_selling range_order orders products categories) name) =
      mset (filter (\<lambda>stats. group_key categories stats = name)
              (product_entries orders products))" for name
  proof -
    have "mset (filter (\<lambda>stats. group_key categories stats = name)
                  (map snd (productStats_loop orders (productMap_loop products Map.empty) []))) =
          mset (filter (\<lambda>stats. group_key categories stats = name)
                  (product_entries orders products))"
      using arg_cong [OF productStats_entries [of orders products],
          of "filter_mset (\<lambda>stats. group_key categories stats = name)"]
      by (simp only: mset_filter)
    then show ?thesis
      by (simp only: top_selling_groups [OF assms(1)])
  qed
  show ?thesis
  proof (intro exI conjI allI)
    show "fst (GetTopSellingProductsByCategory range_order js s) =
            Inr (top_selling range_order orders products categories)"
      by (rule result)
    show "top_selling range_order orders products categories =
            top_selling range_order (filter (known_product products) orders) products categories"
      by (rule top_selling_skip)
    show "mset (slice_at (top_selling range_order orders products categories) name) =
            mset (filter (\<lambda>stats. group_key categories stats = name)
                    (product_entries orders products))" for name
      by (rule groups)
    show "sorted_wrt (\<lambda>a b. ProductStats.TotalRevenue a \<ge> ProductStats.TotalRevenue b)
            (slice_at (top_selling range_order orders products categories) name)" for name
      by (rule top_selling_sorted)
  qed
qed

lemma example_top_selling:
  "top_selling rev [order_o1, order_o2, order_o3] [product_p1, product_p2] [category_c1] ''Books'' =
     Some [\<lparr>Product = product_p1, TotalOrders = 1, TotalRevenue = 10\<rparr>]"
  "top_selling rev [order_o1, order_o2, order_o3] [product_p1, product_p2] [category_c1] [] =
     Some [\<lparr>Product = product_p2, TotalOrders = 1, TotalRevenue = 5\<rparr>]"
  "top_selling rev [order_o1, order_o2, order_o3] [product_p1, product_p2] [category_c1] ''Toys'' =
     None"
  by (simp_all add: top_selling_def sort_groups_def sort_Slice_def slice_at_def
      zero_ProductStats_def zero_Category_def
      order_o1_def order_o2_def order_o3_def product_p1_def product_p2_def category_c1_def)

lemma example_known:
  "filter (known_product [product_p1, product_p2]) [order_o1, order_o2, order_o3] =
     [order_o1, order_o2]"
  by (simp add: known_product_def order_o1_def order_o2_def order_o3_def
      product_p1_def product_p2_def)

lemma example_entries:
  "product_entries [order_o1, order_o2, order_o3] [product_p1, product_p2] =
     [\<lparr>Product = product_p1, TotalOrders = 1, TotalRevenue = 10\<rparr>,
      \<lparr>Product = product_p2, TotalOrders = 1, TotalRevenue = 5\<rparr>]"
  by (simp add: product_entries_def product_stats_def List.map_filter_simps
      order_o1_def order_o2_def order_o3_def product_p1_def product_p2_def)

text \<open>
  In the example order o3 names a product that is not stored and product p2 a category
  that is not stored: p1 is filed under Books, p2 under the empty name.
\<close>

theorem GetTopSellingProductsByCategory_groups_example:
  "\<exists>result.
     fst (GetTopSellingProductsByCategory rev example_json example_service) = Inr result
   \<and> result = top_selling rev [order_o1, order_o2] [product_p1, product_p2] [category_c1]
   \<and> (\<forall>name. mset (slice_at result name) =
                mset (filter (\<lambda>stats. group_key [category_c1] stats = name)
                        [\<lparr>Product = product_p1, TotalOrders = 1, TotalRevenue = 10\<rparr>,
                         \<lparr>Product = product_p2, TotalOrders = 1, TotalRevenue = 5\<rparr>]))
   \<and> (\<forall>name. sorted_wrt
                (\<lambda>a b. ProductStats.TotalRevenue a \<ge> ProductStats.TotalRevenue b)
                (slice_at result name))"
  using GetTopSellingProductsByCategory_groups [of rev, OF _ example_list_orders
      example_list_products example_list_categories]
  by (simp only: example_known example_entries mset_rev simp_thms)

subsection \<open>The identifier allocator\<close>

lemma getNextID_eq:
  "getNextID entity s =
     (counter_at (counters s) entity + 1,
      (inc_counter entity s)\<lparr>db := snd (persist_counter entity (inc_counter entity s))\<rparr>)"
  by (simp add: getNextID_def inc_counter_def Let_def split_beta counter_at_def)

lemma getNextID_fst: "fst (getNextID entity s) = counter_at (counters s) entity + 1"
  by (simp add: getNextID_eq)

lemma getNextID_counter:
  "counter_at (counters (snd (getNextID entity s))) entity' =
     (if entity' = entity then counter_at (counters s) entity + 1
      else counter_at (counters s) entity')"
  by (simp add: getNextID_eq inc_counter_def counter_at_def)

lemma upt_1_Suc_Suc: "[1..<Suc (Suc n)] = 1 # map Suc [1..<Suc n]"
  by (simp add: upt_conv_Cons map_Suc_upt del: upt_Suc)

lemma create_counters: "counters (snd (create marshal entity i data s)) = counters s"
  by (simp add: create_def split_beta)

lemma delete_counters: "counters (snd (delete entity i s)) = counters s"
  by (simp add: delete_def split_beta)

lemma run_step_allocated:
  "allocated entity (fst (run_step st s)) =
     (if is_allocation entity st then [counter_at (counters s) entity + 1] else [])"
  by (cases st) (simp_all add: allocated_def split_beta getNextID_fst)

lemma run_step_counter:
  "counter_at (counters (snd (run_step st s))) entity =
     (if is_allocation entity st then counter_at (counters s) entity + 1
      else counter_at (counters s) entity)"
  by (cases st) (simp_all add: split_beta getNextID_counter create_counters delete_counters)

lemma allocated_append: "allocated entity (xs @ ys) = allocated entity xs @ allocated entity ys"
  by (simp add: allocated_def)

lemma run_allocated:
  "allocated entity (fst (run steps s)) =
     map (\<lambda>i. counter_at (counters s) entity + of_nat i)
       [1..<Suc (length (filter (is_allocation entity) steps))]"
proof (induction steps arbitrary: s)
  case Nil
  show ?case by (simp add: allocated_def)
next
  case (Cons st rest)
  let ?c = "counter_at (counters s) entity"
  let ?m = "length (filter (is_allocation entity) rest)"
  have split: "allocated entity (fst (run (st # rest) s)) =
      allocated entity (fst (run_step st s)) @
      allocated entity (fst (run rest (snd (run_step st s))))"
    by (simp add: split_beta allocated_append)
  show ?case
  proof (cases "is_allocation entity st")
    case True
    have "allocated entity (fst (run (st # rest) s)) =
        (?c + 1) # map (\<lambda>i. ?c + 1 + of_nat i) [1..<Suc ?m]"
      unfolding split by (simp add: Cons.IH run_step_allocated run_step_counter True)
    also have "\<dots> = map (\<lambda>i. ?c + of_nat i) [1..<Suc (Suc ?m)]"
      by (simp only: upt_1_Suc_Suc list.map map_map o_def of_nat_Suc of_nat_1 add.assoc
          add.commute [of 1])
    finally show ?thesis using True by simp
  next
    case False
    then show ?thesis
      unfolding split by (simp add: Cons.IH run_step_allocated run_step_counter)
  qed
qed

lemma sint_of_nat_int64: "i < 2 ^ 63 \<Longrightarrow> sint (of_nat i :: int64) = int i"
proof -
  assume "i < 2 ^ 63"
  then have "int i < 2 ^ 63" by (metis of_nat_less_iff of_nat_numeral of_nat_power)
  then have "signed_take_bit 63 (int i) = int i"
    by (intro signed_take_bit_int_eq_self) simp_all
  then show ?thesis by (simp add: signed_of_nat)
qed

lemma initCounters_loop_db: "db (initCounters_loop js es s) = db s"
proof (induction es arbitrary: s)
  case Nil
  show ?case by simp
next
  case (Cons entity rest)
  show ?case
    by (cases "fault (db s)")
       (simp_all add: db_View_def Cons.IH split: sum.splits)
qed

lemma initCounters_loop_fresh:
  assumes "map_of (kv (db s)) (counter_key entity) = None"
    and "counter_at (counters s) entity = 0"
  shows "counter_at (counters (initCounters_loop js es s)) entity = 0"
  using assms
proof (induction es arbitrary: s)
  case Nil
  then show ?case by simp
next
  case (Cons e rest)
  show ?case
  proof (cases "fault (db s)")
    case (Some err)
    then show ?thesis
      using Cons.prems by (simp add: db_View_def Cons.IH)
  next
    case None
    show ?thesis
    proof (cases "e = entity")
      case True
      then show ?thesis
        using None Cons.prems
        by (simp add: db_View_def txn_Get_def NewTransaction_def)
           (rule Cons.IH, simp_all add: counter_at_def)
    next
      case False
      then show ?thesis
        using None Cons.prems
        by (simp add: db_View_def split: sum.splits)
           (intro conjI impI allI Cons.IH, simp_all add: counter_at_def)
    qed
  qed
qed

text \<open>
  Claim C1. On a service started on a store that holds no counter for the entity kind (a
  fresh store in particular), the calls of \<^verbatim>\<open>getNextID\<close> for the kind return
  1, 2, ..., \<open>n\<close> in the order of the calls: strictly increasing, hence distinct and never
  reused. This holds whatever happens between the calls: allocations for other kinds,
  creates, deletions of records and any other change of the store contents; none of them
  touches the in-memory counter. The bound on \<open>n\<close> is the range of \<^verbatim>\<open>int64\<close>, the
  type of the identifiers. Whether the counter could be persisted plays no role.
\<close>

theorem getNextID_sequence:
  assumes "NewBadgerService js (Inr d) = Inr s"
    and "map_of (kv d) (counter_key entity) = None"
    and "length (filter (is_allocation entity) steps) = n"
    and "n < 2 ^ 63"
  shows "map sint (allocated entity (fst (run steps s))) = map int [1..<Suc n]
       \<and> sorted_wrt (<) (map sint (allocated entity (fst (run steps s))))
       \<and> distinct (allocated entity (fst (run steps s)))"
proof -
  from assms(1) have s: "s = initCounters js \<lparr>db = d, counters = Map.empty\<rparr>"
    by (simp add: NewBadgerService_def)
  have zero: "counter_at (counters s) entity = 0"
    unfolding s initCounters_def
    by (rule initCounters_loop_fresh) (simp_all add: assms(2) counter_at_def)
  have ids: "allocated entity (fst (run steps s)) = map of_nat [1..<Suc n]"
    by (simp add: run_allocated zero assms(3))
  have "sint (of_nat i :: int64) = int i" if "i \<in> set [1..<Suc n]" for i
    using that assms(4) by (intro sint_of_nat_int64) auto
  then have eq: "map sint (allocated entity (fst (run steps s))) = map int [1..<Suc n]"
    unfolding ids map_map by (intro map_cong refl) simp
  have "sorted_wrt (<) (map int [1..<Suc n])"
    by (simp add: sorted_wrt_map sorted_wrt_upt del: upt_Suc)
  moreover have "distinct (map int [1..<Suc n])"
    by (simp add: distinct_map inj_on_def del: upt_Suc)
  ultimately show ?thesis
    using eq by (metis distinct_map)
qed

lemma fresh_service_new: "NewBadgerService example_json (Inr fresh_db) = Inr fresh_service"
  by (simp add: NewBadgerService_def initCounters_def entities_def db_View_def txn_Get_def
      NewTransaction_def fresh_db_def fresh_service_def)

lemma fresh_db_no_counter: "map_of (kv fresh_db) (counter_key ''users'') = None"
  by (simp add: fresh_db_def)

lemma example_steps_count: "length (filter (is_allocation ''users'') example_steps) = 3"
  by (simp add: example_steps_def)

text \<open>
  On the fresh service the three allocations for users in the example steps return 1, 2, 3:
  the identifier 1 is not given out again after user 1 has been deleted.
\<close>

theorem getNextID_sequence_example:
  "NewBadgerService example_json (Inr fresh_db) = Inr fresh_service
   \<and> map_of (kv fresh_db) (counter_key ''users'') = None
   \<and> length (filter (is_allocation ''users'') example_steps) = 3
   \<and> (3::nat) < 2 ^ 63
   \<and> map sint (allocated ''users'' (fst (run example_steps fresh_service))) = [1, 2, 3]"
  using getNextID_sequence [OF fresh_service_new fresh_db_no_counter example_steps_count]
  by (simp add: fresh_service_new fresh_db_no_counter example_steps_count upt_conv_Cons)

lemma db_Update_fails: "fst (db_Update fn d) = Some err \<Longrightarrow> snd (db_Update fn d) = d"
  by (auto simp: db_Update_def split: option.splits prod.splits)

text \<open>
  Claim C7, amended. When persisting the incremented counter fails, \<^verbatim>\<open>getNextID\<close>
  does not report it: it returns the incremented identifier and nothing else. The
  in-memory counter keeps its incremented value and the store is left as it was.
\<close>

theorem getNextID_persist_failure:
  assumes "fst (persist_counter entity (inc_counter entity s)) = Some err"
  shows "getNextID entity s = (counter_at (counters s) entity + 1, inc_counter entity s)
       \<and> counter_at (counters (snd (getNextID entity s))) entity =
           counter_at (counters s) entity + 1
       \<and> db (snd (getNextID entity s)) = db s"
proof -
  from assms have "snd (persist_counter entity (inc_counter entity s)) = db (inc_counter entity s)"
    unfolding persist_counter_def by (rule db_Update_fails)
  then have "getNextID entity s = (counter_at (counters s) entity + 1, inc_counter entity s)"
    by (simp add: getNextID_eq)
  then show ?thesis
    by (simp add: inc_counter_def counter_at_def)
qed

lemma closed_persist_fails:
  "fst (persist_counter ''users'' (inc_counter ''users'' closed_service)) =
     Some (ErrStore ''closed'')"
  by (simp add: persist_counter_def db_Update_def inc_counter_def closed_service_def)

text \<open>On the service whose store is closed the first allocation for users returns 1.\<close>

theorem getNextID_persist_failure_example:
  "fst (persist_counter ''users'' (inc_counter ''users'' closed_service)) =
     Some (ErrStore ''closed'')
   \<and> getNextID ''users'' closed_service = (1, inc_counter ''users'' closed_service)"
proof -
  have "counter_at (counters closed_service) ''users'' + 1 = 1"
    by (simp add: counter_at_def closed_service_def)
  then show ?thesis
    using getNextID_persist_failure [OF closed_persist_fails] closed_persist_fails
    by simp
qed

text \<open>
  Claim C7 as stated fails: persisting fails on the closed store, and the caller receives
  the identifier 1, which is what it receives on the fresh store where persisting
  succeeds.
\<close>

theorem getNextID_failure_not_reported:
  "fst (persist_counter ''users'' (inc_counter ''users'' closed_service)) =
     Some (ErrStore ''closed'')
   \<and> fst (persist_counter ''users'' (inc_counter ''users'' fresh_service)) = None
   \<and> fst (getNextID ''users'' closed_service) = 1
   \<and> fst (getNextID ''users'' fresh_service) = 1"
  by (simp add: getNextID_fst persist_counter_def db_Update_def txn_Set_def NewTransaction_def
      inc_counter_def counter_at_def closed_service_def fresh_service_def fresh_db_def)

subsection \<open>Scans and key order\<close>







lemma kv_ok_filter: "kv_ok kvs \<Longrightarrow> kv_ok (filter P kvs)"
  unfolding kv_ok_def
proof (induction kvs)
  case Nil
  show ?case by simp
next
  case (Cons entry rest)
  then show ?case by auto
qed




















subsection \<open>Counter records\<close>






lemma kv_set_keys: "fst ` set (kv_set k v kvs) = insert k (fst ` set kvs)"
proof (induction kvs)
  case Nil
  show ?case by simp
next
  case (Cons entry rest)
  obtain k' v' where entry: "entry = (k', v')" by (cases entry)
  show ?case
    using Cons.IH by (simp add: entry insert_commute)
qed

lemma kv_set_ok: "kv_ok kvs \<Longrightarrow> kv_ok (kv_set k v kvs)"
  unfolding kv_ok_def
proof (induction kvs)
  case Nil
  show ?case by simp
next
  case (Cons entry rest)
  obtain k' v' where entry: "entry = (k', v')" by (cases entry)
  from Cons.prems have rest: "sorted_wrt (<) (map fst rest)" and above: "\<forall>x \<in> fst ` set rest. k' < x"
    by (auto simp: entry)
  show ?case
  proof (cases k k' rule: linorder_cases)
    case less
    then show ?thesis using Cons.prems above by (auto simp: entry)
  next
    case equal
    then show ?thesis using Cons.prems by (simp add: entry)
  next
    case greater
    then have "\<forall>x \<in> fst ` set (kv_set k v rest). k' < x"
      using above by (simp add: kv_set_keys)
    moreover from greater have "\<not> k < k'" "k \<noteq> k'" by auto
    ultimately show ?thesis
      using Cons.IH [OF rest] by (simp add: entry)
  qed
qed












text \<open>The invariant holds on the fresh store and is kept by every write of the service.\<close>

lemma fresh_kv_ok: "kv_ok (kv fresh_db)"
  by (simp add: kv_ok_def fresh_db_def)

lemma create_kv_ok: "kv_ok (kv (db s)) \<Longrightarrow> kv_ok (kv (db (snd (create marshal entity i data s))))"
  by (cases "fault (db s)"; cases "marshal data")
     (simp_all add: create_def db_Update_def txn_Set_def NewTransaction_def kv_set_ok)

lemma delete_kv_ok: "kv_ok (kv (db s)) \<Longrightarrow> kv_ok (kv (db (snd (delete entity i s))))"
  by (cases "fault (db s)")
     (simp_all add: delete_def db_Update_def txn_Delete_def NewTransaction_def kv_ok_filter)

end
